theory Spec2Isabelle
  imports Main
begin

section \<open>Data model\<close>

text \<open>
  The repository is a NestJS authentication backend. The controller
  (\<^verbatim>\<open>auth.controller.ts\<close>) and the access-token resolver
  (\<^verbatim>\<open>auth.service.ts\<close>) are embedded below; every \<^verbatim>\<open>await\<close> is a sequential
  step on an explicit database state, every \<^verbatim>\<open>throw\<close> is an \<open>Inl\<close> result
  returned together with the database as it stands at the moment of the throw.
\<close>

text \<open>
  Exceptions. The controller throws \<^verbatim>\<open>BadRequestException\<close> with three different
  messages; Nest answers a guard that returns false with a \<^verbatim>\<open>ForbiddenException\<close>;
  \<open>DuplicateToken\<close> is the failure of the credential store's create operation.
\<close>

datatype error = BadRequestException string | ForbiddenException | DuplicateToken

abbreviation Conflict :: error where
  "Conflict \<equiv> BadRequestException ''User with this login has been already registered.''"

abbreviation InvalidCredentials :: error where
  "InvalidCredentials \<equiv> BadRequestException ''Invalid credentials.''"

abbreviation InvalidRefreshToken :: error where
  "InvalidRefreshToken \<equiv> BadRequestException ''Invalid refresh token''"

text \<open>The failures of \<^verbatim>\<open>JwtService.verifyAsync\<close> (the error classes of jsonwebtoken).\<close>

datatype jwt_failure = JsonWebTokenError | TokenExpiredError | NotBeforeError

text \<open>
  Modelled from the spec: the \<^verbatim>\<open>User\<close> entity of \<^verbatim>\<open>@modules/user\<close>, which is not among
  the sources (identifier, login, password hash, public profile fields). The field
  \<^verbatim>\<open>id\<close> is \<open>u_id\<close> here, the others carry the prefix \<open>u_\<close> as well.
\<close>

record user =
  u_id :: nat
  u_firstName :: string
  u_lastName :: string
  u_login :: string
  u_password :: string

record UserPublicData =
  p_id :: nat
  p_firstName :: string
  p_lastName :: string
  p_login :: string

text \<open>Modelled from the spec: the getter \<^verbatim>\<open>User.public\<close> (the profile without the password hash).\<close>

definition "public" :: "user \<Rightarrow> UserPublicData" where
  "public u = \<lparr>p_id = u_id u, p_firstName = u_firstName u,
                p_lastName = u_lastName u, p_login = u_login u\<rparr>"

text \<open>
  Modelled from the spec: the \<^verbatim>\<open>RefreshSession\<close> entity (id, owning user, fingerprint,
  token, expiresAt). \<open>s_expiresAt\<close> is the date as milliseconds since the epoch, the
  value \<^verbatim>\<open>Number(session.expiresAt)\<close> reads.
\<close>

record RefreshSession =
  s_id :: nat
  s_user :: user
  s_fingerprint :: string
  s_token :: string
  s_expiresAt :: int

text \<open>The database: both tables and the two counters that generate primary keys.\<close>

record db =
  users :: "user list"
  sessions :: "RefreshSession list"
  next_user_id :: nat
  next_session_id :: nat

definition empty_db :: db where
  "empty_db = \<lparr>users = [], sessions = [], next_user_id = 0, next_session_id = 0\<rparr>"

text \<open>\<^verbatim>\<open>ConfigService\<close>: the two lifetimes the code reads, in milliseconds.\<close>

record config =
  jwt_accessToken_expiresIn :: int
  jwt_refreshToken_expiresIn :: int

text \<open>
  The external capabilities, taken as parameters: \<^verbatim>\<open>JwtService.signAsync({userId})\<close>,
  \<^verbatim>\<open>JwtService.verifyAsync(token)\<close> (\<open>Inl\<close> when it rejects), \<^verbatim>\<open>bcrypt.hash(password, salt)\<close>
  and \<^verbatim>\<open>bcrypt.compare(password, hash)\<close>.
\<close>

record deps =
  jwt_signAsync :: "nat \<Rightarrow> string"
  jwt_verifyAsync :: "string \<Rightarrow> jwt_failure + nat"
  bcrypt_hash :: "string \<Rightarrow> string \<Rightarrow> string"
  bcrypt_compare :: "string \<Rightarrow> string \<Rightarrow> bool"

text \<open>What a handler leaves on the response: status, the cookies set in order, the body.\<close>

record CookieOptions =
  httpOnly :: bool
  path :: string
  maxAge :: int

record cookie =
  c_name :: string
  c_value :: "string option"
  c_options :: "CookieOptions option"

record response =
  res_status :: nat
  res_cookies :: "cookie list"
  res_body :: "UserPublicData option"

section \<open>The collaborators that are not among the sources\<close>

subsection \<open>UserService\<close>

text \<open>Modelled from the spec: \<^verbatim>\<open>UserService.findOne({login})\<close>, the user with that login.\<close>

definition user_findOne :: "string \<Rightarrow> db \<Rightarrow> user option" where
  "user_findOne login' st = find (\<lambda>u. u_login u = login') (users st)"

text \<open>Modelled from the spec: \<^verbatim>\<open>UserService.findOne({where: {id}})\<close>, the user with that identifier.\<close>

definition user_findOne_by_id :: "nat \<Rightarrow> db \<Rightarrow> user option" where
  "user_findOne_by_id userId st = find (\<lambda>u. u_id u = userId) (users st)"

text \<open>
  Modelled from the spec: \<^verbatim>\<open>UserService.create\<close>, which persists a new user under a
  system-generated identifier and returns it.
\<close>

definition user_create :: "string \<Rightarrow> string \<Rightarrow> string \<Rightarrow> string \<Rightarrow> db \<Rightarrow> user \<times> db" where
  "user_create firstName lastName login' password st =
     (let u = \<lparr>u_id = next_user_id st, u_firstName = firstName, u_lastName = lastName,
                u_login = login', u_password = password\<rparr>
      in (u, st\<lparr>users := users st @ [u], next_user_id := Suc (next_user_id st)\<rparr>))"

subsection \<open>RefreshSessionService: the credential store\<close>

text \<open>
  Modelled from the spec: the criteria objects the controller passes to the store,
  \<^verbatim>\<open>{fingerprint}\<close>, \<^verbatim>\<open>{token}\<close> and \<^verbatim>\<open>{fingerprint, token}\<close>, and what it is for a
  session to match one: every field that is present is equal, a field that is absent
  constrains nothing.
\<close>

record criteria =
  by_fingerprint :: "string option"
  by_token :: "string option"

definition matches :: "criteria \<Rightarrow> RefreshSession \<Rightarrow> bool" where
  "matches c s =
     ((case by_fingerprint c of None \<Rightarrow> True | Some f \<Rightarrow> s_fingerprint s = f) \<and>
      (case by_token c of None \<Rightarrow> True | Some t \<Rightarrow> s_token s = t))"

text \<open>
  Modelled from the spec: \<^verbatim>\<open>RefreshSessionService.findOne\<close>, the spec's findSession
  (exact match on every field of the criteria), with the user relation loaded.
\<close>

definition refreshSession_findOne :: "criteria \<Rightarrow> db \<Rightarrow> RefreshSession option" where
  "refreshSession_findOne c st = find (matches c) (sessions st)"

text \<open>
  Modelled from the spec: \<^verbatim>\<open>RefreshSessionService.delete(criteria)\<close>, which removes every
  session the criteria match; no match is no error.
\<close>

definition refreshSession_delete :: "criteria \<Rightarrow> db \<Rightarrow> db" where
  "refreshSession_delete c st = st\<lparr>sessions := filter (\<lambda>s. \<not> matches c s) (sessions st)\<rparr>"

text \<open>
  Modelled from the spec: \<^verbatim>\<open>RefreshSessionService.remove(session)\<close>, the spec's
  deleteSession, an idempotent removal of that entity (by its primary key).
\<close>

definition refreshSession_remove :: "RefreshSession \<Rightarrow> db \<Rightarrow> db" where
  "refreshSession_remove session st =
     st\<lparr>sessions := filter (\<lambda>s. s_id s \<noteq> s_id session) (sessions st)\<rparr>"

text \<open>
  Modelled from the spec: \<^verbatim>\<open>RefreshSessionService.create\<close>, the spec's createSession,
  which fails with \<open>DuplicateToken\<close> when the token is that of a stored session and
  otherwise persists the session under a fresh id and returns it.
\<close>

definition refreshSession_create ::
  "user \<Rightarrow> string \<Rightarrow> int \<Rightarrow> string \<Rightarrow> db \<Rightarrow> (error + RefreshSession) \<times> db" where
  "refreshSession_create user' fingerprint expiresAt token st =
     (if token \<in> set (map s_token (sessions st)) then (Inl DuplicateToken, st)
      else
        (let s = \<lparr>s_id = next_session_id st, s_user = user', s_fingerprint = fingerprint,
                   s_token = token, s_expiresAt = expiresAt\<rparr>
         in (Inr s, st\<lparr>sessions := sessions st @ [s],
                        next_session_id := Suc (next_session_id st)\<rparr>)))"

section \<open>AuthController\<close>

definition accessTokenCookieOptions :: "config \<Rightarrow> CookieOptions" where
  "accessTokenCookieOptions cfg =
     \<lparr>httpOnly = True, path = ''/'', maxAge = jwt_accessToken_expiresIn cfg\<rparr>"

definition refreshTokenCookieOptions :: "config \<Rightarrow> CookieOptions" where
  "refreshTokenCookieOptions cfg =
     \<lparr>httpOnly = True, path = ''/api/auth'', maxAge = jwt_refreshToken_expiresIn cfg\<rparr>"

text \<open>The two \<^verbatim>\<open>res.cookie\<close> calls that register, login and refreshTokens share.\<close>

definition token_cookies :: "config \<Rightarrow> string \<Rightarrow> string \<Rightarrow> cookie list" where
  "token_cookies cfg accessToken refreshToken =
     [\<lparr>c_name = ''access-token'', c_value = Some accessToken,
       c_options = Some (accessTokenCookieOptions cfg)\<rparr>,
      \<lparr>c_name = ''refresh-token'', c_value = Some refreshToken,
       c_options = Some (refreshTokenCookieOptions cfg)\<rparr>]"

text \<open>
  \<^verbatim>\<open>getJWTs(user, fingerprint)\<close>. \<open>now\<close> is the value \<^verbatim>\<open>Date.now()\<close> returns and
  \<open>uuid\<close> the value \<^verbatim>\<open>v4()\<close> returns in this call. The result of create is awaited
  with no try around it: its failure is the failure of getJWTs. \<^verbatim>\<open>AuthService.getJWTs\<close>
  has the same body.
\<close>

definition getJWTs ::
  "config \<Rightarrow> deps \<Rightarrow> int \<Rightarrow> string \<Rightarrow> user \<Rightarrow> string \<Rightarrow> db \<Rightarrow> (error + string \<times> string) \<times> db" where
  "getJWTs cfg dp now uuid user' fingerprint st =
     (let refreshTokenExpiresIn = jwt_refreshToken_expiresIn cfg;
          accessToken = jwt_signAsync dp (u_id user')
      in case refreshSession_create user' fingerprint (now + refreshTokenExpiresIn) uuid st of
           (Inl e, st') \<Rightarrow> (Inl e, st')
         | (Inr refreshToken, st') \<Rightarrow> (Inr (accessToken, s_token refreshToken), st'))"

text \<open>
  \<^verbatim>\<open>register\<close>. \<open>salt\<close> is the value \<^verbatim>\<open>bcrypt.genSalt(10)\<close> returns.
\<close>

definition register ::
  "config \<Rightarrow> deps \<Rightarrow> string \<Rightarrow> int \<Rightarrow> string \<Rightarrow>
   string \<Rightarrow> string \<Rightarrow> string \<Rightarrow> string \<Rightarrow> string \<Rightarrow> db \<Rightarrow> (error + response) \<times> db" where
  "register cfg dp salt now uuid firstName lastName login' password fingerprint st =
     (case user_findOne login' st of
        Some existedUser \<Rightarrow> (Inl Conflict, st)
      | None \<Rightarrow>
          (let hashedPassword = bcrypt_hash dp password salt;
               (user', st1) = user_create firstName lastName login' hashedPassword st
           in case getJWTs cfg dp now uuid user' fingerprint st1 of
                (Inl e, st2) \<Rightarrow> (Inl e, st2)
              | (Inr (accessToken, refreshToken), st2) \<Rightarrow>
                  (Inr \<lparr>res_status = 201,
                        res_cookies = token_cookies cfg accessToken refreshToken,
                        res_body = Some (public user')\<rparr>, st2)))"

text \<open>\<^verbatim>\<open>login\<close>. Both failures throw the one exception object built before the checks.\<close>

definition login ::
  "config \<Rightarrow> deps \<Rightarrow> int \<Rightarrow> string \<Rightarrow> string \<Rightarrow> string \<Rightarrow> string \<Rightarrow> db \<Rightarrow> (error + response) \<times> db" where
  "login cfg dp now uuid login' password fingerprint st =
     (let error = InvalidCredentials in
      case user_findOne login' st of
        None \<Rightarrow> (Inl error, st)
      | Some user' \<Rightarrow>
          (let doPasswordsMatch = bcrypt_compare dp password (u_password user') in
           if \<not> doPasswordsMatch then (Inl error, st)
           else
             (let st1 = refreshSession_delete \<lparr>by_fingerprint = Some fingerprint, by_token = None\<rparr> st
              in case getJWTs cfg dp now uuid user' fingerprint st1 of
                   (Inl e, st2) \<Rightarrow> (Inl e, st2)
                 | (Inr (accessToken, refreshToken), st2) \<Rightarrow>
                     (Inr \<lparr>res_status = 200,
                           res_cookies = token_cookies cfg accessToken refreshToken,
                           res_body = Some (public user')\<rparr>, st2))))"

text \<open>
  \<^verbatim>\<open>isExpired = Date.now() - Number(session.expiresAt) >= 0\<close>, and its negation, the
  spec's Active state of a stored session.
\<close>

definition isExpired :: "int \<Rightarrow> RefreshSession \<Rightarrow> bool" where
  "isExpired now session = (now - s_expiresAt session \<ge> 0)"


text \<open>
  \<^verbatim>\<open>refreshTokens\<close>. \<open>cookie'\<close> is \<^verbatim>\<open>req.cookies["refresh-token"]\<close>, \<open>None\<close> when the
  request carries no such cookie; \<^verbatim>\<open>!token\<close> holds for a missing cookie and for the
  empty string. \<open>now0\<close> is what \<^verbatim>\<open>Date.now()\<close> returns at the expiry check, \<open>now\<close> what
  it returns inside getJWTs.
\<close>

definition refreshTokens ::
  "config \<Rightarrow> deps \<Rightarrow> int \<Rightarrow> int \<Rightarrow> string \<Rightarrow> string \<Rightarrow> string option \<Rightarrow> db \<Rightarrow> (error + response) \<times> db" where
  "refreshTokens cfg dp now0 now uuid fingerprint cookie' st =
     (let error = InvalidRefreshToken in
      case cookie' of
        None \<Rightarrow> (Inl error, st)
      | Some token \<Rightarrow>
          if token = [] then (Inl error, st)
          else
            (case refreshSession_findOne \<lparr>by_fingerprint = Some fingerprint, by_token = Some token\<rparr> st of
               None \<Rightarrow> (Inl error, st)
             | Some session \<Rightarrow>
                 if isExpired now0 session then (Inl error, st)
                 else
                   (let st1 = refreshSession_remove session st
                    in case getJWTs cfg dp now uuid (s_user session) fingerprint st1 of
                         (Inl e, st2) \<Rightarrow> (Inl e, st2)
                       | (Inr (accessToken, newRefreshToken), st2) \<Rightarrow>
                           (Inr \<lparr>res_status = 204,
                                 res_cookies = token_cookies cfg accessToken newRefreshToken,
                                 res_body = None\<rparr>, st2))))"

text \<open>
  \<^verbatim>\<open>logout\<close>, the handler's effects for a request that carries the refresh-token cookie:
  both cookies are set to null on \<^verbatim>\<open>res\<close> and every session with that token is deleted.
  The first component is what the handler leaves on the response object. Unlike the
  three handlers above, which take \<^verbatim>\<open>@Res({passthrough: true})\<close>, this one takes
  \<^verbatim>\<open>@Res()\<close>, so that sending is left to the handler, and it never calls
  \<^verbatim>\<open>res.send\<close> or \<^verbatim>\<open>res.end\<close>: what is left on \<^verbatim>\<open>res\<close> is not sent.
\<close>

definition logout :: "string \<Rightarrow> db \<Rightarrow> response \<times> db" where
  "logout token st =
     (\<lparr>res_status = 204,
       res_cookies = [\<lparr>c_name = ''access-token'', c_value = None, c_options = None\<rparr>,
                      \<lparr>c_name = ''refresh-token'', c_value = None, c_options = None\<rparr>],
       res_body = None\<rparr>,
      refreshSession_delete \<lparr>by_fingerprint = None, by_token = Some token\<rparr> st)"

text \<open>\<^verbatim>\<open>IsAuthorizedGuard.canActivate\<close>: \<^verbatim>\<open>!!req.user\<close>.\<close>

definition canActivate :: "user option \<Rightarrow> bool" where
  "canActivate req_user = (req_user \<noteq> None)"

text \<open>
  The logout route as the caller sees it: the guard, then the handler. \<open>Some\<close> is an
  answer, here the exception Nest answers a failed guard with. \<open>None\<close> is a request that
  never gets an answer: the guard passes, the handler runs and returns, and nothing
  sends the response.
\<close>

definition logout_route :: "user option \<Rightarrow> string \<Rightarrow> db \<Rightarrow> (error + response) option \<times> db" where
  "logout_route req_user token st =
     (if canActivate req_user then (None, snd (logout token st))
      else (Some (Inl ForbiddenException), st))"

section \<open>AuthService\<close>

text \<open>
  \<^verbatim>\<open>findUserByAccessToken\<close>: the rejection of the awaited \<^verbatim>\<open>verifyAsync\<close> is caught
  and becomes \<^verbatim>\<open>null\<close> (\<open>Inr None\<close>); \<open>Inl\<close> would be an exception that leaves the
  function. The user lookup is returned without await; in this model it is a lookup in
  the database and cannot fail.
\<close>

definition findUserByAccessToken :: "deps \<Rightarrow> string \<Rightarrow> db \<Rightarrow> error + user option" where
  "findUserByAccessToken dp token st =
     (case jwt_verifyAsync dp token of
        Inl failure \<Rightarrow> Inr None
      | Inr userId \<Rightarrow> Inr (user_findOne_by_id userId st))"

section \<open>Reachable states\<close>

text \<open>
  The states the database takes when the four state-changing routes are called one
  after the other, starting from the empty database, with any request data, any
  configuration, any capabilities and any values of the clock, the salt and the
  token generator. A call that fails half-way leaves its partial effects.
\<close>

inductive reachable :: "db \<Rightarrow> bool" where
  init: "reachable empty_db"
| step_register:
    "reachable st \<Longrightarrow>
     reachable (snd (register cfg dp salt now uuid firstName lastName login' password fingerprint st))"
| step_login:
    "reachable st \<Longrightarrow> reachable (snd (login cfg dp now uuid login' password fingerprint st))"
| step_refreshTokens:
    "reachable st \<Longrightarrow> reachable (snd (refreshTokens cfg dp now0 now uuid fingerprint cookie' st))"
| step_logout:
    "reachable st \<Longrightarrow> reachable (snd (logout token st))"

section \<open>A refresh as the steps between its awaits\<close>

text \<open>
  Two requests that are served at the same time take turns at their awaits. For
  \<^verbatim>\<open>refreshTokens\<close> the store is touched three times, each an awaited call of its own
  with nothing that ties them together: \<^verbatim>\<open>findOne\<close> (with the checks before it and on
  its result, lines 84 to 96), \<^verbatim>\<open>remove\<close> (line 98) and \<^verbatim>\<open>getJWTs\<close> (line 100, whose
  one store operation is create). A request is the values the handler reads; its
  progress says which of the three comes next, or how the handler ended.
\<close>

record refresh_request =
  rq_cfg :: config
  rq_dp :: deps
  rq_now0 :: int
  rq_now :: int
  rq_uuid :: string
  rq_fingerprint :: string
  rq_cookie :: "string option"

datatype progress = AtLookup | AtRemove RefreshSession | AtIssue RefreshSession
  | Finished "error + response"

fun refresh_step :: "refresh_request \<Rightarrow> progress \<Rightarrow> db \<Rightarrow> progress \<times> db" where
  "refresh_step rq AtLookup st =
     (let error = InvalidRefreshToken in
      case rq_cookie rq of
        None \<Rightarrow> (Finished (Inl error), st)
      | Some token \<Rightarrow>
          if token = [] then (Finished (Inl error), st)
          else
            (case refreshSession_findOne
                    \<lparr>by_fingerprint = Some (rq_fingerprint rq), by_token = Some token\<rparr> st of
               None \<Rightarrow> (Finished (Inl error), st)
             | Some session \<Rightarrow>
                 if isExpired (rq_now0 rq) session then (Finished (Inl error), st)
                 else (AtRemove session, st)))"
| "refresh_step rq (AtRemove session) st = (AtIssue session, refreshSession_remove session st)"
| "refresh_step rq (AtIssue session) st =
     (case getJWTs (rq_cfg rq) (rq_dp rq) (rq_now rq) (rq_uuid rq) (s_user session)
             (rq_fingerprint rq) st of
        (Inl e, st') \<Rightarrow> (Finished (Inl e), st')
      | (Inr (accessToken, newRefreshToken), st') \<Rightarrow>
          (Finished (Inr \<lparr>res_status = 204,
                           res_cookies = token_cookies (rq_cfg rq) accessToken newRefreshToken,
                           res_body = None\<rparr>), st'))"
| "refresh_step rq (Finished result) st = (Finished result, st)"

text \<open>
  A schedule says whose turn it is, step by step; the turn of a request that has
  finished changes nothing.
\<close>

datatype caller = Caller1 | Caller2

fun interleave ::
  "caller list \<Rightarrow> refresh_request \<Rightarrow> refresh_request \<Rightarrow> progress \<times> progress \<times> db
   \<Rightarrow> progress \<times> progress \<times> db" where
  "interleave [] rqa rqb c = c"
| "interleave (Caller1 # cs) rqa rqb (pa, pb, st) =
     (case refresh_step rqa pa st of (pa', st') \<Rightarrow> interleave cs rqa rqb (pa', pb, st'))"
| "interleave (Caller2 # cs) rqa rqb (pa, pb, st) =
     (case refresh_step rqb pb st of (pb', st') \<Rightarrow> interleave cs rqa rqb (pa, pb', st'))"

section \<open>Notions the properties are stated with\<close>

text \<open>
  The session record that \<^verbatim>\<open>getJWTs\<close> hands to the store's create, with the id the
  store gives it: a name for the properties below, the operations do not use it.
\<close>

definition issued :: "config \<Rightarrow> int \<Rightarrow> string \<Rightarrow> user \<Rightarrow> string \<Rightarrow> db \<Rightarrow> RefreshSession" where
  "issued cfg now uuid user' fingerprint st =
     \<lparr>s_id = next_session_id st, s_user = user', s_fingerprint = fingerprint,
      s_token = uuid, s_expiresAt = now + jwt_refreshToken_expiresIn cfg\<rparr>"

text \<open>
  The pair a session belongs to: the identifier of its user and its fingerprint.
\<close>

definition session_key :: "RefreshSession \<Rightarrow> nat \<times> string" where
  "session_key s = (u_id (s_user s), s_fingerprint s)"

text \<open>
  The invariant of the database: identifiers of users are below the counter, no two
  sessions belong to the same pair of user and fingerprint, no two sessions carry the
  same token.
\<close>

definition store_inv :: "db \<Rightarrow> bool" where
  "store_inv st \<longleftrightarrow>
     (\<forall>u\<in>set (users st). u_id u < next_user_id st) \<and>
     (\<forall>s\<in>set (sessions st). u_id (s_user s) < next_user_id st) \<and>
     distinct (map session_key (sessions st)) \<and>
     distinct (map s_token (sessions st))"


text \<open>
  \<open>later token st st''\<close>: the database goes from \<open>st\<close> to \<open>st''\<close> by calls of the four
  routes in which the token generator never returns \<open>token\<close>.
\<close>

inductive later :: "string \<Rightarrow> db \<Rightarrow> db \<Rightarrow> bool" for token :: string where
  later_now: "later token st st"
| later_register:
    "later token st mid \<Longrightarrow> uuid \<noteq> token \<Longrightarrow>
     later token st (snd (register cfg dp salt now uuid firstName lastName login' password fingerprint mid))"
| later_login:
    "later token st mid \<Longrightarrow> uuid \<noteq> token \<Longrightarrow>
     later token st (snd (login cfg dp now uuid login' password fingerprint mid))"
| later_refreshTokens:
    "later token st mid \<Longrightarrow> uuid \<noteq> token \<Longrightarrow>
     later token st (snd (refreshTokens cfg dp now0 now uuid fingerprint cookie' mid))"
| later_logout:
    "later token st mid \<Longrightarrow> later token st (snd (logout token' mid))"

section \<open>Concrete scenarios\<close>

text \<open>
  A configuration with a refresh lifetime of 10 time units, toy capabilities, two
  users and a database in which Alice holds one session, issued at time 0 on the
  device \<open>dev1\<close>.
\<close>

definition cfg0 :: config where
  "cfg0 = \<lparr>jwt_accessToken_expiresIn = 5, jwt_refreshToken_expiresIn = 10\<rparr>"

definition dp0 :: deps where
  "dp0 = \<lparr>jwt_signAsync = (\<lambda>userId. ''jwt''),
          jwt_verifyAsync = (\<lambda>t. if t = ''jwt'' then Inr 0 else Inl JsonWebTokenError),
          bcrypt_hash = (\<lambda>password salt. salt @ password),
          bcrypt_compare = (\<lambda>password hashed. hashed = ''salt'' @ password)\<rparr>"

definition alice :: user where
  "alice = \<lparr>u_id = 0, u_firstName = ''Alice'', u_lastName = ''A'', u_login = ''alice'',
            u_password = ''saltpw''\<rparr>"

definition bob :: user where
  "bob = \<lparr>u_id = 1, u_firstName = ''Bob'', u_lastName = ''B'', u_login = ''bob'',
          u_password = ''saltqw''\<rparr>"

definition sessA :: RefreshSession where
  "sessA = \<lparr>s_id = 0, s_user = alice, s_fingerprint = ''dev1'', s_token = ''tok1'',
            s_expiresAt = 10\<rparr>"

definition st1 :: db where
  "st1 = \<lparr>users = [alice, bob], sessions = [sessA], next_user_id = 2, next_session_id = 1\<rparr>"

text \<open>
  A second database: Bob holds a session on the same device \<open>dev1\<close> and another one
  on \<open>dev2\<close>.
\<close>

definition sessB :: RefreshSession where
  "sessB = \<lparr>s_id = 1, s_user = bob, s_fingerprint = ''dev1'', s_token = ''tok2'',
            s_expiresAt = 20\<rparr>"

definition sessC :: RefreshSession where
  "sessC = \<lparr>s_id = 2, s_user = bob, s_fingerprint = ''dev2'', s_token = ''tok3'',
            s_expiresAt = 20\<rparr>"

definition st2 :: db where
  "st2 = \<lparr>users = [alice, bob], sessions = [sessA, sessB, sessC], next_user_id = 2,
          next_session_id = 3\<rparr>"

text \<open>
  The second database after Bob has redeemed \<open>tok3\<close> on \<open>dev2\<close> at time 19: the
  session \<open>sessC\<close> is replaced by \<open>sessD\<close>.
\<close>

definition sessD :: RefreshSession where
  "sessD = \<lparr>s_id = 3, s_user = bob, s_fingerprint = ''dev2'', s_token = ''tok4'',
            s_expiresAt = 29\<rparr>"

definition st3 :: db where
  "st3 = \<lparr>users = [alice, bob], sessions = [sessA, sessB, sessD], next_user_id = 2,
          next_session_id = 4\<rparr>"

text \<open>
  Two requests that present Bob's token \<open>tok3\<close> on \<open>dev2\<close> at time 19, and the database
  in which both have been served.
\<close>

definition reqA :: refresh_request where
  "reqA = \<lparr>rq_cfg = cfg0, rq_dp = dp0, rq_now0 = 19, rq_now = 19, rq_uuid = ''tok4'',
           rq_fingerprint = ''dev2'', rq_cookie = Some ''tok3''\<rparr>"

definition reqB :: refresh_request where
  "reqB = \<lparr>rq_cfg = cfg0, rq_dp = dp0, rq_now0 = 19, rq_now = 19, rq_uuid = ''tok5'',
           rq_fingerprint = ''dev2'', rq_cookie = Some ''tok3''\<rparr>"

definition sessE :: RefreshSession where
  "sessE = \<lparr>s_id = 4, s_user = bob, s_fingerprint = ''dev2'', s_token = ''tok5'',
            s_expiresAt = 29\<rparr>"

definition st4 :: db where
  "st4 = \<lparr>users = [alice, bob], sessions = [sessA, sessB, sessD, sessE], next_user_id = 2,
          next_session_id = 5\<rparr>"

section \<open>Basic facts\<close>

lemmas fixture_defs = cfg0_def dp0_def alice_def bob_def sessA_def st1_def
  sessB_def sessC_def st2_def sessD_def st3_def

lemmas op_defs = login_def register_def refreshTokens_def logout_def getJWTs_def
  refreshSession_create_def refreshSession_delete_def refreshSession_remove_def
  refreshSession_findOne_def user_findOne_def user_create_def matches_def isExpired_def
  token_cookies_def public_def

lemma find_Some_mem: "find P xs = Some x \<Longrightarrow> x \<in> set xs \<and> P x"
  by (induction xs) (auto split: if_splits)

lemma getJWTs_cases:
  "getJWTs cfg dp now uuid user' fingerprint st =
     (if uuid \<in> set (map s_token (sessions st)) then (Inl DuplicateToken, st)
      else (Inr (jwt_signAsync dp (u_id user'), uuid),
            st\<lparr>sessions := sessions st @ [issued cfg now uuid user' fingerprint st],
                next_session_id := Suc (next_session_id st)\<rparr>))"
  by (simp add: getJWTs_def refreshSession_create_def Let_def issued_def)

lemma delete_by_fingerprint:
  "refreshSession_delete \<lparr>by_fingerprint = Some fingerprint, by_token = None\<rparr> st =
     st\<lparr>sessions := filter (\<lambda>s. s_fingerprint s \<noteq> fingerprint) (sessions st)\<rparr>"
  by (simp add: refreshSession_delete_def matches_def)

lemma remove_sessions:
  "sessions (refreshSession_remove session st) = filter (\<lambda>s. s_id s \<noteq> s_id session) (sessions st)"
  by (simp add: refreshSession_remove_def)

lemma logout_sessions:
  "snd (logout token st) = st\<lparr>sessions := filter (\<lambda>s. s_token s \<noteq> token) (sessions st)\<rparr>"
  by (simp add: logout_def refreshSession_delete_def matches_def)

lemma refresh_absent_token:
  assumes "token \<notin> set (map s_token (sessions st))"
  shows "refreshTokens cfg dp now0 now uuid fingerprint (Some token) st = (Inl InvalidRefreshToken, st)"
proof -
  have "find (matches \<lparr>by_fingerprint = Some fingerprint, by_token = Some token\<rparr>) (sessions st) = None"
    using assms by (auto simp: find_None_iff matches_def)
  then show ?thesis
    by (simp add: refreshTokens_def refreshSession_findOne_def Let_def)
qed

lemma login_success:
  assumes "login cfg dp now uuid login' password fingerprint st = (Inr r, st')"
  shows "\<exists>u. user_findOne login' st = Some u \<and> bcrypt_compare dp password (u_password u)
           \<and> uuid \<notin> set (map s_token (filter (\<lambda>s. s_fingerprint s \<noteq> fingerprint) (sessions st)))
           \<and> st' = st\<lparr>sessions := filter (\<lambda>s. s_fingerprint s \<noteq> fingerprint) (sessions st)
                                     @ [issued cfg now uuid u fingerprint st],
                       next_session_id := Suc (next_session_id st)\<rparr>
           \<and> r = \<lparr>res_status = 200,
                   res_cookies = token_cookies cfg (jwt_signAsync dp (u_id u)) uuid,
                   res_body = Some (public u)\<rparr>"
  using assms
  by (auto simp: login_def Let_def getJWTs_cases delete_by_fingerprint issued_def
      split: option.splits if_splits)

lemma login_alice_st2:
  "login cfg0 dp0 5 ''tok4'' ''alice'' ''pw'' ''dev1'' st2 =
     (Inr \<lparr>res_status = 200, res_cookies = token_cookies cfg0 ''jwt'' ''tok4'',
           res_body = Some (public alice)\<rparr>,
      st2\<lparr>sessions := [sessC, issued cfg0 5 ''tok4'' alice ''dev1'' st2], next_session_id := 4\<rparr>)"
  by (simp add: login_def getJWTs_cases delete_by_fingerprint user_findOne_def issued_def
      fixture_defs)

section \<open>Login failures\<close>

text \<open>
  Claim C4. A login with a login name no user has, and a login with the name of a user
  and a password that \<^verbatim>\<open>bcrypt.compare\<close> rejects, give the same result whatever the
  other inputs are: the exception \<^verbatim>\<open>BadRequestException("Invalid credentials.")\<close> and
  an unchanged database. Nothing in the result tells the two causes apart.
\<close>

theorem login_failures_indistinguishable:
  assumes "user_findOne loginA st = None"
    and "user_findOne loginB st = Some u"
    and "\<not> bcrypt_compare dpB passwordB (u_password u)"
  shows "login cfgA dpA nowA uuidA loginA passwordA fingerprintA st = (Inl InvalidCredentials, st)
       \<and> login cfgB dpB nowB uuidB loginB passwordB fingerprintB st = (Inl InvalidCredentials, st)
       \<and> login cfgA dpA nowA uuidA loginA passwordA fingerprintA st =
         login cfgB dpB nowB uuidB loginB passwordB fingerprintB st"
  using assms by (simp add: login_def)

theorem login_failures_indistinguishable_witness:
  "user_findOne ''carol'' st1 = None
   \<and> user_findOne ''alice'' st1 = Some alice
   \<and> \<not> bcrypt_compare dp0 ''wrong'' (u_password alice)
   \<and> login cfg0 dp0 5 ''tok2'' ''carol'' ''pw'' ''dev1'' st1 = (Inl InvalidCredentials, st1)
   \<and> login cfg0 dp0 7 ''tok3'' ''alice'' ''wrong'' ''dev2'' st1 = (Inl InvalidCredentials, st1)
   \<and> login cfg0 dp0 5 ''tok2'' ''carol'' ''pw'' ''dev1'' st1 =
     login cfg0 dp0 7 ''tok3'' ''alice'' ''wrong'' ''dev2'' st1"
proof -
  have a: "user_findOne ''carol'' st1 = None"
    by (simp add: user_findOne_def fixture_defs)
  have b: "user_findOne ''alice'' st1 = Some alice"
    by (simp add: user_findOne_def fixture_defs)
  have c: "\<not> bcrypt_compare dp0 ''wrong'' (u_password alice)"
    by (simp add: fixture_defs)
  show ?thesis
    using a b c login_failures_indistinguishable [OF a b c,
        of cfg0 dp0 5 "''tok2''" "''pw''" "''dev1''" cfg0 7 "''tok3''" "''dev2''"]
    by auto
qed

section \<open>Resolving the identity behind an access token\<close>

text \<open>
  Claim C7. For every token that \<^verbatim>\<open>verifyAsync\<close> rejects, whatever the reason,
  \<^verbatim>\<open>findUserByAccessToken\<close> returns \<^verbatim>\<open>null\<close>; and for no token at all does it end in
  an exception (the user lookup being one that cannot fail).
\<close>

theorem findUserByAccessToken_no_throw:
  "(jwt_verifyAsync dp token = Inl failure \<longrightarrow> findUserByAccessToken dp token st = Inr None)
   \<and> findUserByAccessToken dp token st \<noteq> Inl e"
  by (simp add: findUserByAccessToken_def split: sum.splits)

theorem findUserByAccessToken_no_throw_witness:
  "jwt_verifyAsync dp0 ''forged'' = Inl JsonWebTokenError
   \<and> findUserByAccessToken dp0 ''forged'' st1 = Inr None
   \<and> findUserByAccessToken dp0 ''forged'' st1 \<noteq> Inl ForbiddenException"
proof -
  have a: "jwt_verifyAsync dp0 ''forged'' = Inl JsonWebTokenError"
    by (simp add: dp0_def)
  show ?thesis
    using a findUserByAccessToken_no_throw
      [of dp0 "''forged''" JsonWebTokenError st1 ForbiddenException]
    by auto
qed

section \<open>Expired sessions\<close>

text \<open>
  Claim C5, as the spec states it: a refresh that finds the matched session expired
  removes it from the store. It does not: at time 11 Alice's session (expiry 10) is
  found expired, the refresh fails, and the session is still stored afterwards.
\<close>

theorem expired_session_removed_counterexample:
  "isExpired 11 sessA
   \<and> fst (refreshTokens cfg0 dp0 11 11 ''tok2'' ''dev1'' (Some ''tok1'') st1) = Inl InvalidRefreshToken
   \<and> sessA \<in> set (sessions (snd (refreshTokens cfg0 dp0 11 11 ''tok2'' ''dev1'' (Some ''tok1'') st1)))"
  by (simp add: op_defs fixture_defs)

text \<open>
  Claim C5, amended. A refresh that finds the matched session expired fails with
  \<^verbatim>\<open>BadRequestException("Invalid refresh token")\<close> and leaves the database as it was:
  the expired session stays stored. Expiry is only the comparison made at each lookup.
\<close>

theorem refresh_expired_keeps_session:
  assumes "refreshSession_findOne \<lparr>by_fingerprint = Some fingerprint, by_token = Some token\<rparr> st
             = Some session"
    and "isExpired now0 session"
  shows "refreshTokens cfg dp now0 now uuid fingerprint (Some token) st = (Inl InvalidRefreshToken, st)
       \<and> session \<in> set (sessions (snd (refreshTokens cfg dp now0 now uuid fingerprint (Some token) st)))"
proof -
  have r: "refreshTokens cfg dp now0 now uuid fingerprint (Some token) st = (Inl InvalidRefreshToken, st)"
    using assms by (simp add: refreshTokens_def Let_def)
  have "session \<in> set (sessions st)"
    using assms(1) find_Some_mem unfolding refreshSession_findOne_def by fastforce
  with r show ?thesis by simp
qed

theorem refresh_expired_keeps_session_witness:
  "refreshSession_findOne \<lparr>by_fingerprint = Some ''dev1'', by_token = Some ''tok1''\<rparr> st1 = Some sessA
   \<and> isExpired 11 sessA
   \<and> refreshTokens cfg0 dp0 11 11 ''tok2'' ''dev1'' (Some ''tok1'') st1 = (Inl InvalidRefreshToken, st1)
   \<and> sessA \<in> set (sessions (snd (refreshTokens cfg0 dp0 11 11 ''tok2'' ''dev1'' (Some ''tok1'') st1)))"
proof -
  have a: "refreshSession_findOne \<lparr>by_fingerprint = Some ''dev1'', by_token = Some ''tok1''\<rparr> st1
             = Some sessA"
    by (simp add: refreshSession_findOne_def matches_def fixture_defs)
  have b: "isExpired 11 sessA"
    by (simp add: isExpired_def sessA_def)
  show ?thesis
    using a b refresh_expired_keeps_session [OF a b, of cfg0 dp0 11 "''tok2''"]
    by auto
qed

section \<open>Logout\<close>

text \<open>
  What logout does to the store: it deletes exactly the sessions whose token is the
  presented one, with no fingerprint involved; doing it twice is doing it once; with a
  token no session has it changes nothing; and after it a refresh presenting the token
  fails with \<^verbatim>\<open>BadRequestException("Invalid refresh token")\<close> for every fingerprint.
\<close>

lemma logout_store_effects:
  "snd (logout token st) = st\<lparr>sessions := filter (\<lambda>s. s_token s \<noteq> token) (sessions st)\<rparr>
   \<and> snd (logout token (snd (logout token st))) = snd (logout token st)
   \<and> (token \<notin> set (map s_token (sessions st)) \<longrightarrow> snd (logout token st) = st)
   \<and> refreshTokens cfg dp now0 now uuid fingerprint (Some token) (snd (logout token st))
       = (Inl InvalidRefreshToken, snd (logout token st))"
proof -
  have 1: "snd (logout token st) = st\<lparr>sessions := filter (\<lambda>s. s_token s \<noteq> token) (sessions st)\<rparr>"
    by (rule logout_sessions)
  have 2: "snd (logout token (snd (logout token st))) = snd (logout token st)"
    by (simp add: logout_sessions)
  have 3: "token \<notin> set (map s_token (sessions st)) \<longrightarrow> snd (logout token st) = st"
  proof
    assume "token \<notin> set (map s_token (sessions st))"
    then have "filter (\<lambda>s. s_token s \<noteq> token) (sessions st) = sessions st"
      by (auto simp: filter_id_conv)
    then show "snd (logout token st) = st" by (simp add: logout_sessions)
  qed
  have "token \<notin> set (map s_token (sessions (snd (logout token st))))"
    by (auto simp: logout_sessions)
  then have 4: "refreshTokens cfg dp now0 now uuid fingerprint (Some token) (snd (logout token st))
       = (Inl InvalidRefreshToken, snd (logout token st))"
    by (rule refresh_absent_token)
  from 1 2 3 4 show ?thesis by blast
qed

lemma logout_route_authorised:
  "logout_route (Some u) token st = (None, snd (logout token st))"
  by (simp add: logout_route_def canActivate_def)

text \<open>
  Claim C6 says that logout is total and always succeeds for its caller, whether a
  session has the presented token or not. The route as written does its work on the
  store and then leaves the caller without an answer: for Alice's authorised request
  with the token of her session the session is deleted and no response is sent, and
  with a token no session has the store is unchanged and no response is sent either.
\<close>

theorem logout_route_never_answers:
  "logout_route (Some alice) ''tok1'' st2 = (None, st2\<lparr>sessions := [sessB, sessC]\<rparr>)
   \<and> logout_route (Some alice) ''nope'' st2 = (None, st2)"
  by (simp add: logout_route_authorised logout_sessions fixture_defs)

section \<open>What login deletes\<close>

text \<open>
  Claim C8. After a successful login the stored sessions are the former sessions with
  another fingerprint, unchanged and in their order, followed by the session just
  issued: every former session with the supplied fingerprint is gone, whoever its user
  is, and every session with a different fingerprint is kept.
\<close>

theorem login_deletes_fingerprint_sessions:
  assumes "login cfg dp now uuid login' password fingerprint st = (Inr r, st')"
  shows "\<exists>u. user_findOne login' st = Some u
           \<and> sessions st' = filter (\<lambda>s. s_fingerprint s \<noteq> fingerprint) (sessions st)
                              @ [issued cfg now uuid u fingerprint st]
           \<and> (\<forall>s\<in>set (sessions st). s_fingerprint s \<noteq> fingerprint \<longrightarrow> s \<in> set (sessions st'))
           \<and> (\<forall>s\<in>set (sessions st'). s_fingerprint s = fingerprint \<longrightarrow>
                 s = issued cfg now uuid u fingerprint st)"
proof -
  from login_success [OF assms] obtain u where
    u: "user_findOne login' st = Some u" and
    st': "st' = st\<lparr>sessions := filter (\<lambda>s. s_fingerprint s \<noteq> fingerprint) (sessions st)
                                     @ [issued cfg now uuid u fingerprint st],
                       next_session_id := Suc (next_session_id st)\<rparr>"
    by blast
  have a: "sessions st' = filter (\<lambda>s. s_fingerprint s \<noteq> fingerprint) (sessions st)
                              @ [issued cfg now uuid u fingerprint st]"
    by (simp add: st')
  have b: "\<forall>s\<in>set (sessions st). s_fingerprint s \<noteq> fingerprint \<longrightarrow> s \<in> set (sessions st')"
    by (simp add: a)
  have c: "\<forall>s\<in>set (sessions st'). s_fingerprint s = fingerprint \<longrightarrow>
                 s = issued cfg now uuid u fingerprint st"
    by (auto simp: a)
  from u a b c show ?thesis by blast
qed

theorem login_deletes_fingerprint_sessions_witness:
  "login cfg0 dp0 5 ''tok4'' ''alice'' ''pw'' ''dev1'' st2 =
     (Inr \<lparr>res_status = 200, res_cookies = token_cookies cfg0 ''jwt'' ''tok4'',
           res_body = Some (public alice)\<rparr>,
      st2\<lparr>sessions := [sessC, issued cfg0 5 ''tok4'' alice ''dev1'' st2], next_session_id := 4\<rparr>)
   \<and> s_user sessB = bob \<and> s_fingerprint sessB = ''dev1'' \<and> sessB \<in> set (sessions st2)
   \<and> sessB \<notin> set (sessions (snd (login cfg0 dp0 5 ''tok4'' ''alice'' ''pw'' ''dev1'' st2)))
   \<and> sessC \<in> set (sessions (snd (login cfg0 dp0 5 ''tok4'' ''alice'' ''pw'' ''dev1'' st2)))"
proof -
  note a = login_alice_st2
  have b: "s_user sessB = bob \<and> s_fingerprint sessB = ''dev1'' \<and> sessB \<in> set (sessions st2)"
    by (simp add: fixture_defs)
  have c: "sessC \<in> set (sessions st2) \<and> s_fingerprint sessC \<noteq> ''dev1''"
    by (simp add: fixture_defs)
  have d: "sessB \<noteq> issued cfg0 5 ''tok4'' alice ''dev1'' st2"
    by (simp add: issued_def fixture_defs)
  show ?thesis
    using a b c d login_deletes_fingerprint_sessions [OF a]
    by auto
qed

section \<open>Token collisions\<close>

text \<open>
  Claim C9, as the spec states it: a \<open>DuplicateToken\<close> failure of create is retried
  and never reaches the caller. It does: a login for which the token generator returns
  the token of a stored session ends in \<open>DuplicateToken\<close>.
\<close>

theorem duplicate_token_surfaced_counterexample:
  "''tok3'' \<in> set (map s_token (sessions st2))
   \<and> fst (login cfg0 dp0 5 ''tok3'' ''alice'' ''pw'' ''dev1'' st2) = Inl DuplicateToken"
  by (simp add: login_def getJWTs_cases delete_by_fingerprint user_findOne_def
      fixture_defs)

text \<open>
  Claim C9, amended. When create fails with \<open>DuplicateToken\<close>, \<^verbatim>\<open>getJWTs\<close> makes no
  second attempt: it fails with \<open>DuplicateToken\<close> and leaves the store as it found it,
  and register, login and refreshTokens pass the failure on to their caller, with the
  writes they made before (the new user, the deleted sessions, the removed session)
  left in place.
\<close>

theorem duplicate_token_propagates:
  "(uuid \<in> set (map s_token (sessions st)) \<longrightarrow>
      getJWTs cfg dp now uuid user' fingerprint st = (Inl DuplicateToken, st))
   \<and> (user_findOne login' st = None \<and> uuid \<in> set (map s_token (sessions st)) \<longrightarrow>
      register cfg dp salt now uuid firstName lastName login' password fingerprint st =
        (Inl DuplicateToken,
         snd (user_create firstName lastName login' (bcrypt_hash dp password salt) st)))
   \<and> (user_findOne login' st = Some u \<and> bcrypt_compare dp password (u_password u)
        \<and> uuid \<in> set (map s_token (filter (\<lambda>s. s_fingerprint s \<noteq> fingerprint) (sessions st))) \<longrightarrow>
      login cfg dp now uuid login' password fingerprint st =
        (Inl DuplicateToken,
         refreshSession_delete \<lparr>by_fingerprint = Some fingerprint, by_token = None\<rparr> st))
   \<and> (token \<noteq> [] \<and> refreshSession_findOne \<lparr>by_fingerprint = Some fingerprint, by_token = Some token\<rparr> st
          = Some session
        \<and> \<not> isExpired now0 session
        \<and> uuid \<in> set (map s_token (sessions (refreshSession_remove session st))) \<longrightarrow>
      refreshTokens cfg dp now0 now uuid fingerprint (Some token) st =
        (Inl DuplicateToken, refreshSession_remove session st))"
proof -
  have 1: "uuid \<in> set (map s_token (sessions st)) \<longrightarrow>
      getJWTs cfg dp now uuid user' fingerprint st = (Inl DuplicateToken, st)"
    by (simp add: getJWTs_cases)
  have 2: "user_findOne login' st = None \<and> uuid \<in> set (map s_token (sessions st)) \<longrightarrow>
      register cfg dp salt now uuid firstName lastName login' password fingerprint st =
        (Inl DuplicateToken,
         snd (user_create firstName lastName login' (bcrypt_hash dp password salt) st))"
    by (simp add: register_def getJWTs_cases user_create_def Let_def)
  have 3: "user_findOne login' st = Some u \<and> bcrypt_compare dp password (u_password u)
        \<and> uuid \<in> set (map s_token (filter (\<lambda>s. s_fingerprint s \<noteq> fingerprint) (sessions st))) \<longrightarrow>
      login cfg dp now uuid login' password fingerprint st =
        (Inl DuplicateToken,
         refreshSession_delete \<lparr>by_fingerprint = Some fingerprint, by_token = None\<rparr> st)"
    by (simp add: login_def getJWTs_cases delete_by_fingerprint Let_def)
  have 4: "token \<noteq> [] \<and> refreshSession_findOne \<lparr>by_fingerprint = Some fingerprint, by_token = Some token\<rparr> st
          = Some session
        \<and> \<not> isExpired now0 session
        \<and> uuid \<in> set (map s_token (sessions (refreshSession_remove session st))) \<longrightarrow>
      refreshTokens cfg dp now0 now uuid fingerprint (Some token) st =
        (Inl DuplicateToken, refreshSession_remove session st)"
    by (simp add: refreshTokens_def getJWTs_cases Let_def)
  from 1 2 3 4 show ?thesis by blast
qed

theorem duplicate_token_propagates_witness:
  "''tok3'' \<in> set (map s_token (sessions st2))
   \<and> getJWTs cfg0 dp0 5 ''tok3'' alice ''dev3'' st2 = (Inl DuplicateToken, st2)
   \<and> user_findOne ''carol'' st2 = None
   \<and> fst (register cfg0 dp0 ''salt'' 5 ''tok3'' ''Carol'' ''C'' ''carol'' ''pw'' ''dev3'' st2)
       = Inl DuplicateToken
   \<and> user_findOne ''alice'' st2 = Some alice
   \<and> bcrypt_compare dp0 ''pw'' (u_password alice)
   \<and> fst (login cfg0 dp0 5 ''tok3'' ''alice'' ''pw'' ''dev1'' st2) = Inl DuplicateToken
   \<and> refreshSession_findOne \<lparr>by_fingerprint = Some ''dev1'', by_token = Some ''tok1''\<rparr> st2 = Some sessA
   \<and> \<not> isExpired 5 sessA
   \<and> fst (refreshTokens cfg0 dp0 5 5 ''tok3'' ''dev1'' (Some ''tok1'') st2) = Inl DuplicateToken"
proof -
  have a: "''tok3'' \<in> set (map s_token (sessions st2))"
    by (simp add: fixture_defs)
  have b: "user_findOne ''carol'' st2 = None"
    by (simp add: user_findOne_def fixture_defs)
  have c: "user_findOne ''alice'' st2 = Some alice"
    by (simp add: user_findOne_def fixture_defs)
  have d: "bcrypt_compare dp0 ''pw'' (u_password alice)"
    by (simp add: fixture_defs)
  have e: "''tok3'' \<in> set (map s_token (filter (\<lambda>s. s_fingerprint s \<noteq> ''dev1'') (sessions st2)))"
    by (simp add: fixture_defs)
  have f: "refreshSession_findOne \<lparr>by_fingerprint = Some ''dev1'', by_token = Some ''tok1''\<rparr> st2
             = Some sessA"
    by (simp add: refreshSession_findOne_def matches_def fixture_defs)
  have g: "\<not> isExpired 5 sessA"
    by (simp add: isExpired_def fixture_defs)
  have h: "''tok3'' \<in> set (map s_token (sessions (refreshSession_remove sessA st2)))"
    by (simp add: remove_sessions fixture_defs)
  have i: "''tok1'' \<noteq> []" by simp
  show ?thesis
    using a b c d e f g h i
      duplicate_token_propagates [of "''tok3''" st2 cfg0 dp0 5 alice "''dev3''" "''carol''"
        "''salt''" "''Carol''" "''C''" "''pw''" alice "''tok1''" sessA 5]
      duplicate_token_propagates [of "''tok3''" st2 cfg0 dp0 5 alice "''dev1''" "''alice''"
        "''salt''" "''Carol''" "''C''" "''pw''" alice "''tok1''" sessA 5]
    by auto
qed

section \<open>The invariant of the reachable states\<close>

lemma snd_register:
  "snd (register cfg dp salt now uuid firstName lastName login' password fingerprint st) =
     (case user_findOne login' st of
        Some existedUser \<Rightarrow> st
      | None \<Rightarrow>
          snd (getJWTs cfg dp now uuid
                 (fst (user_create firstName lastName login' (bcrypt_hash dp password salt) st))
                 fingerprint
                 (snd (user_create firstName lastName login' (bcrypt_hash dp password salt) st))))"
  by (simp add: register_def Let_def split: option.splits prod.splits sum.splits)

lemma snd_login:
  "snd (login cfg dp now uuid login' password fingerprint st) =
     (case user_findOne login' st of
        None \<Rightarrow> st
      | Some u \<Rightarrow>
          if bcrypt_compare dp password (u_password u)
          then snd (getJWTs cfg dp now uuid u fingerprint
                 (refreshSession_delete \<lparr>by_fingerprint = Some fingerprint, by_token = None\<rparr> st))
          else st)"
  by (simp add: login_def Let_def split: option.splits prod.splits sum.splits)

lemma snd_refreshTokens:
  "snd (refreshTokens cfg dp now0 now uuid fingerprint cookie' st) =
     (case cookie' of
        None \<Rightarrow> st
      | Some token \<Rightarrow>
          if token = [] then st
          else
            (case refreshSession_findOne \<lparr>by_fingerprint = Some fingerprint, by_token = Some token\<rparr> st of
               None \<Rightarrow> st
             | Some session \<Rightarrow>
                 if isExpired now0 session then st
                 else snd (getJWTs cfg dp now uuid (s_user session) fingerprint
                        (refreshSession_remove session st))))"
  by (simp add: refreshTokens_def Let_def split: option.splits prod.splits sum.splits)

lemma store_inv_empty: "store_inv empty_db"
  by (simp add: store_inv_def empty_db_def)

lemma store_inv_filter:
  "store_inv st \<Longrightarrow> store_inv (st\<lparr>sessions := filter P (sessions st)\<rparr>)"
  by (auto simp: store_inv_def distinct_map_filter)

lemma store_inv_getJWTs:
  assumes "store_inv st" and "u_id u < next_user_id st"
    and "\<forall>s\<in>set (sessions st). session_key s \<noteq> (u_id u, fingerprint)"
  shows "store_inv (snd (getJWTs cfg dp now uuid u fingerprint st))"
  using assms
  by (auto simp: getJWTs_cases store_inv_def issued_def session_key_def)

lemma store_inv_register:
  assumes "store_inv st"
  shows "store_inv (snd (register cfg dp salt now uuid firstName lastName login' password fingerprint st))"
proof (cases "user_findOne login' st")
  case (Some existedUser)
  then show ?thesis using assms by (simp add: snd_register)
next
  case None
  let ?u = "fst (user_create firstName lastName login' (bcrypt_hash dp password salt) st)"
  let ?st1 = "snd (user_create firstName lastName login' (bcrypt_hash dp password salt) st)"
  have u: "u_id ?u = next_user_id st"
    by (simp add: user_create_def Let_def)
  have inv1: "store_inv ?st1"
    using assms by (auto simp: user_create_def Let_def store_inv_def less_Suc_eq)
  have lt: "u_id ?u < next_user_id ?st1"
    by (simp add: user_create_def Let_def)
  have "\<forall>s\<in>set (sessions ?st1). session_key s \<noteq> (u_id ?u, fingerprint)"
    using assms by (auto simp: user_create_def Let_def store_inv_def session_key_def)
  from store_inv_getJWTs [OF inv1 lt this] None show ?thesis
    by (simp add: snd_register)
qed

lemma store_inv_login:
  assumes "store_inv st"
  shows "store_inv (snd (login cfg dp now uuid login' password fingerprint st))"
proof (cases "user_findOne login' st")
  case None
  then show ?thesis using assms by (simp add: snd_login)
next
  case (Some u)
  show ?thesis
  proof (cases "bcrypt_compare dp password (u_password u)")
    case False
    with Some assms show ?thesis by (simp add: snd_login)
  next
    case True
    let ?st1 = "refreshSession_delete \<lparr>by_fingerprint = Some fingerprint, by_token = None\<rparr> st"
    have inv1: "store_inv ?st1"
      using assms by (simp add: delete_by_fingerprint store_inv_filter)
    have "u \<in> set (users st)"
      using Some find_Some_mem unfolding user_findOne_def by fastforce
    then have lt: "u_id u < next_user_id ?st1"
      using assms by (simp add: store_inv_def delete_by_fingerprint)
    have "\<forall>s\<in>set (sessions ?st1). session_key s \<noteq> (u_id u, fingerprint)"
      by (simp add: delete_by_fingerprint session_key_def)
    from store_inv_getJWTs [OF inv1 lt this] Some True show ?thesis
      by (simp add: snd_login)
  qed
qed

lemma distinct_map_eq:
  "distinct (map f xs) \<Longrightarrow> x \<in> set xs \<Longrightarrow> y \<in> set xs \<Longrightarrow> f x = f y \<Longrightarrow> x = y"
  by (meson distinct_map inj_on_def)

lemma store_inv_refreshTokens:
  assumes "store_inv st"
  shows "store_inv (snd (refreshTokens cfg dp now0 now uuid fingerprint cookie' st))"
proof (cases "\<exists>token session. cookie' = Some token \<and> token \<noteq> [] \<and>
    refreshSession_findOne \<lparr>by_fingerprint = Some fingerprint, by_token = Some token\<rparr> st = Some session
    \<and> \<not> isExpired now0 session")
  case False
  then have "snd (refreshTokens cfg dp now0 now uuid fingerprint cookie' st) = st"
    by (auto simp: snd_refreshTokens split: option.splits)
  with assms show ?thesis by simp
next
  case True
  then obtain token session where c: "cookie' = Some token" "token \<noteq> []"
    and f: "refreshSession_findOne \<lparr>by_fingerprint = Some fingerprint, by_token = Some token\<rparr> st = Some session"
    and e: "\<not> isExpired now0 session"
    by blast
  let ?st1 = "refreshSession_remove session st"
  from f have mem: "session \<in> set (sessions st)" and fp: "s_fingerprint session = fingerprint"
    using find_Some_mem [of "matches \<lparr>by_fingerprint = Some fingerprint, by_token = Some token\<rparr>"
        "sessions st" session]
    by (simp_all add: refreshSession_findOne_def matches_def)
  have inv1: "store_inv ?st1"
    using assms by (simp add: refreshSession_remove_def store_inv_filter)
  have lt: "u_id (s_user session) < next_user_id ?st1"
    using assms mem by (simp add: store_inv_def refreshSession_remove_def)
  have "\<forall>s\<in>set (sessions ?st1). session_key s \<noteq> (u_id (s_user session), fingerprint)"
  proof
    fix s assume s: "s \<in> set (sessions ?st1)"
    then have "s \<in> set (sessions st)" and "s \<noteq> session"
      by (auto simp: remove_sessions)
    moreover have "distinct (map session_key (sessions st))"
      using assms by (simp add: store_inv_def)
    ultimately have "session_key s \<noteq> session_key session"
      using mem distinct_map_eq by metis
    then show "session_key s \<noteq> (u_id (s_user session), fingerprint)"
      by (simp add: session_key_def fp)
  qed
  from store_inv_getJWTs [OF inv1 lt this] c f e show ?thesis
    by (simp add: snd_refreshTokens)
qed

lemma store_inv_logout:
  "store_inv st \<Longrightarrow> store_inv (snd (logout token st))"
  by (simp add: logout_sessions store_inv_filter)

lemma reachable_store_inv: "reachable st \<Longrightarrow> store_inv st"
  by (induction rule: reachable.induct)
    (simp_all add: store_inv_empty store_inv_register store_inv_login store_inv_refreshTokens
      store_inv_logout)








lemma refreshTokens_success:
  assumes "refreshTokens cfg dp now0 now uuid fingerprint cookie' st = (Inr r, st')"
  shows "\<exists>token session. cookie' = Some token \<and> token \<noteq> []
           \<and> refreshSession_findOne \<lparr>by_fingerprint = Some fingerprint, by_token = Some token\<rparr> st
               = Some session
           \<and> \<not> isExpired now0 session
           \<and> getJWTs cfg dp now uuid (s_user session) fingerprint (refreshSession_remove session st)
               = (Inr (jwt_signAsync dp (u_id (s_user session)), uuid), st')
           \<and> sessions st' = filter (\<lambda>s. s_id s \<noteq> s_id session) (sessions st)
                              @ [issued cfg now uuid (s_user session) fingerprint st]
           \<and> r = \<lparr>res_status = 204,
                   res_cookies = token_cookies cfg (jwt_signAsync dp (u_id (s_user session))) uuid,
                   res_body = None\<rparr>"
  using assms
  by (auto simp: refreshTokens_def Let_def getJWTs_cases issued_def refreshSession_remove_def
      split: option.splits if_splits)

lemma findOne_Some:
  assumes "refreshSession_findOne \<lparr>by_fingerprint = Some fingerprint, by_token = Some token\<rparr> st
             = Some session"
  shows "session \<in> set (sessions st) \<and> s_fingerprint session = fingerprint \<and> s_token session = token"
  using find_Some_mem [of "matches \<lparr>by_fingerprint = Some fingerprint, by_token = Some token\<rparr>"
      "sessions st" session] assms
  by (simp add: refreshSession_findOne_def matches_def)

lemma reachable_st2: "reachable st2"
proof -
  let ?a = "snd (register cfg0 dp0 ''salt'' 0 ''tok1'' ''Alice'' ''A'' ''alice'' ''pw'' ''dev1'' empty_db)"
  let ?b = "snd (register cfg0 dp0 ''salt'' 10 ''tok2'' ''Bob'' ''B'' ''bob'' ''qw'' ''dev1'' ?a)"
  let ?c = "snd (login cfg0 dp0 10 ''tok3'' ''bob'' ''qw'' ''dev2'' ?b)"
  have a: "?a = \<lparr>users = [alice], sessions = [sessA], next_user_id = 1, next_session_id = 1\<rparr>"
    by (simp add: op_defs Let_def fixture_defs empty_db_def)
  have b: "?b = \<lparr>users = [alice, bob], sessions = [sessA, sessB], next_user_id = 2, next_session_id = 2\<rparr>"
    unfolding a by (simp add: op_defs Let_def fixture_defs)
  have c: "?c = st2"
    unfolding b by (simp add: op_defs Let_def fixture_defs)
  have "reachable ?c"
    by (intro step_login step_register init)
  with c show ?thesis by simp
qed


lemma refresh_bob_st2:
  "refreshTokens cfg0 dp0 19 19 ''tok4'' ''dev2'' (Some ''tok3'') st2 =
     (Inr \<lparr>res_status = 204, res_cookies = token_cookies cfg0 ''jwt'' ''tok4'', res_body = None\<rparr>,
      st3)"
  by (simp add: refreshTokens_def getJWTs_cases refreshSession_remove_def refreshSession_findOne_def
      matches_def isExpired_def issued_def fixture_defs)




section \<open>Refresh-token rotation\<close>

lemma tokens_getJWTs:
  "set (map s_token (sessions (snd (getJWTs cfg dp now uuid u fingerprint st))))
     \<subseteq> insert uuid (set (map s_token (sessions st)))"
  by (auto simp: getJWTs_cases issued_def)

lemma tokens_register:
  "set (map s_token (sessions
      (snd (register cfg dp salt now uuid firstName lastName login' password fingerprint st))))
     \<subseteq> insert uuid (set (map s_token (sessions st)))"
proof (cases "user_findOne login' st")
  case (Some existedUser)
  then show ?thesis by (auto simp: snd_register)
next
  case None
  have "sessions (snd (user_create firstName lastName login' (bcrypt_hash dp password salt) st))
          = sessions st"
    by (simp add: user_create_def Let_def)
  with None tokens_getJWTs show ?thesis
    by (metis option.simps(4) snd_register)
qed

lemma tokens_login:
  "set (map s_token (sessions (snd (login cfg dp now uuid login' password fingerprint st))))
     \<subseteq> insert uuid (set (map s_token (sessions st)))"
proof -
  let ?st1 = "refreshSession_delete \<lparr>by_fingerprint = Some fingerprint, by_token = None\<rparr> st"
  have "set (map s_token (sessions ?st1)) \<subseteq> set (map s_token (sessions st))"
    by (auto simp: delete_by_fingerprint)
  then have "\<And>u. set (map s_token (sessions (snd (getJWTs cfg dp now uuid u fingerprint ?st1))))
     \<subseteq> insert uuid (set (map s_token (sessions st)))"
    using tokens_getJWTs by blast
  then show ?thesis
    by (auto simp only: snd_login split: option.splits if_splits)
qed

lemma tokens_refreshTokens:
  "set (map s_token (sessions (snd (refreshTokens cfg dp now0 now uuid fingerprint cookie' st))))
     \<subseteq> insert uuid (set (map s_token (sessions st)))"
proof -
  have "\<And>session. set (map s_token (sessions (refreshSession_remove session st)))
          \<subseteq> set (map s_token (sessions st))"
    by (auto simp: remove_sessions)
  then have "\<And>u session. set (map s_token (sessions
        (snd (getJWTs cfg dp now uuid u fingerprint (refreshSession_remove session st)))))
     \<subseteq> insert uuid (set (map s_token (sessions st)))"
    using tokens_getJWTs by blast
  then show ?thesis
    by (auto simp only: snd_refreshTokens split: option.splits if_splits)
qed

lemma tokens_logout:
  "set (map s_token (sessions (snd (logout token' st)))) \<subseteq> set (map s_token (sessions st))"
  by (auto simp: logout_sessions)

lemma later_token_absent:
  assumes "later token st st''" and "token \<notin> set (map s_token (sessions st))"
  shows "token \<notin> set (map s_token (sessions st''))"
  using assms
proof (induction rule: later.induct)
  case later_now
  then show ?case by simp
next
  case (later_register mid uuid cfg dp salt now firstName lastName login' password fingerprint)
  then show ?case using tokens_register by blast
next
  case (later_login mid uuid cfg dp now login' password fingerprint)
  then show ?case using tokens_login by blast
next
  case (later_refreshTokens mid uuid cfg dp now0 now fingerprint cookie')
  then show ?case using tokens_refreshTokens by blast
next
  case (later_logout mid token')
  then show ?case using tokens_logout by blast
qed

text \<open>
  Claim C2. When a refresh succeeds in a reachable state and the token generator
  returns a token other than the presented one: the handler removes the matched session
  and then calls \<^verbatim>\<open>getJWTs\<close> on the store without it; the matched session is not in the
  final store; the session issued has the user and the fingerprint of the matched one
  and its token is the refresh-token cookie of the response; and a refresh presenting
  the consumed token again fails with \<^verbatim>\<open>BadRequestException("Invalid refresh token")\<close>,
  at once and after any further calls in which the generator does not return that token.
\<close>

theorem refresh_rotation:
  assumes "reachable st"
    and "refreshTokens cfg dp now0 now uuid fingerprint (Some token) st = (Inr r, st')"
    and "uuid \<noteq> token"
  shows "\<exists>session.
      refreshSession_findOne \<lparr>by_fingerprint = Some fingerprint, by_token = Some token\<rparr> st
        = Some session
    \<and> getJWTs cfg dp now uuid (s_user session) fingerprint (refreshSession_remove session st)
        = (Inr (jwt_signAsync dp (u_id (s_user session)), uuid), st')
    \<and> session \<notin> set (sessions (refreshSession_remove session st))
    \<and> session \<notin> set (sessions st')
    \<and> s_fingerprint session = fingerprint
    \<and> issued cfg now uuid (s_user session) (s_fingerprint session) st \<in> set (sessions st')
    \<and> res_cookies r = token_cookies cfg (jwt_signAsync dp (u_id (s_user session))) uuid
    \<and> refreshTokens cfg' dp' now0' now' uuid' fingerprint' (Some token) st'
        = (Inl InvalidRefreshToken, st')
    \<and> (later token st' st'' \<longrightarrow>
         refreshTokens cfg' dp' now0' now' uuid' fingerprint' (Some token) st''
           = (Inl InvalidRefreshToken, st''))"
proof -
  from refreshTokens_success [OF assms(2)] obtain session where
    f: "refreshSession_findOne \<lparr>by_fingerprint = Some fingerprint, by_token = Some token\<rparr> st
          = Some session"
    and g: "getJWTs cfg dp now uuid (s_user session) fingerprint (refreshSession_remove session st)
          = (Inr (jwt_signAsync dp (u_id (s_user session)), uuid), st')"
    and s: "sessions st' = filter (\<lambda>s. s_id s \<noteq> s_id session) (sessions st)
                              @ [issued cfg now uuid (s_user session) fingerprint st]"
    and r: "r = \<lparr>res_status = 204,
                   res_cookies = token_cookies cfg (jwt_signAsync dp (u_id (s_user session))) uuid,
                   res_body = None\<rparr>"
    by auto
  from findOne_Some [OF f] have mem: "session \<in> set (sessions st)"
    and fp: "s_fingerprint session = fingerprint" and tk: "s_token session = token"
    by simp_all
  have d: "distinct (map s_token (sessions st))"
    using reachable_store_inv [OF assms(1)] by (simp add: store_inv_def)
  have 1: "session \<notin> set (sessions (refreshSession_remove session st))"
    by (simp add: remove_sessions)
  have "s_token (issued cfg now uuid (s_user session) fingerprint st) = uuid"
    by (simp add: issued_def)
  with assms(3) tk have ne: "issued cfg now uuid (s_user session) fingerprint st \<noteq> session"
    by metis
  have 2: "session \<notin> set (sessions st')"
    using ne by (auto simp: s)
  have 3: "issued cfg now uuid (s_user session) (s_fingerprint session) st \<in> set (sessions st')"
    by (simp add: s fp)
  have 4: "res_cookies r = token_cookies cfg (jwt_signAsync dp (u_id (s_user session))) uuid"
    by (simp add: r)
  have absent: "token \<notin> set (map s_token (sessions st'))"
  proof
    assume "token \<in> set (map s_token (sessions st'))"
    then obtain x where x: "x \<in> set (sessions st')" "s_token x = token"
      by auto
    from x(1) have "x = issued cfg now uuid (s_user session) fingerprint st
        \<or> (x \<in> set (sessions st) \<and> s_id x \<noteq> s_id session)"
      by (auto simp: s)
    then show False
    proof
      assume "x = issued cfg now uuid (s_user session) fingerprint st"
      with x(2) assms(3) show False by (simp add: issued_def)
    next
      assume a: "x \<in> set (sessions st) \<and> s_id x \<noteq> s_id session"
      with d mem x(2) tk have "x = session"
        using distinct_map_eq [of s_token "sessions st" x session] by simp
      with a show False by simp
    qed
  qed
  have 5: "refreshTokens cfg' dp' now0' now' uuid' fingerprint' (Some token) st'
        = (Inl InvalidRefreshToken, st')"
    by (rule refresh_absent_token [OF absent])
  have 6: "later token st' st'' \<longrightarrow>
         refreshTokens cfg' dp' now0' now' uuid' fingerprint' (Some token) st''
           = (Inl InvalidRefreshToken, st'')"
  proof
    assume "later token st' st''"
    from later_token_absent [OF this absent] show
      "refreshTokens cfg' dp' now0' now' uuid' fingerprint' (Some token) st''
           = (Inl InvalidRefreshToken, st'')"
      by (rule refresh_absent_token)
  qed
  from f g 1 2 fp 3 4 5 6 show ?thesis by blast
qed


theorem refresh_rotation_witness:
  "reachable st2
   \<and> refreshTokens cfg0 dp0 19 19 ''tok4'' ''dev2'' (Some ''tok3'') st2 =
     (Inr \<lparr>res_status = 204, res_cookies = token_cookies cfg0 ''jwt'' ''tok4'', res_body = None\<rparr>,
      st3)
   \<and> ''tok4'' \<noteq> ''tok3''
   \<and> refreshSession_findOne \<lparr>by_fingerprint = Some ''dev2'', by_token = Some ''tok3''\<rparr> st2
       = Some sessC
   \<and> sessC \<notin> set (sessions st3)
   \<and> sessD \<in> set (sessions st3)
   \<and> s_user sessD = s_user sessC \<and> s_fingerprint sessD = s_fingerprint sessC
   \<and> refreshTokens cfg0 dp0 20 20 ''tok5'' ''dev2'' (Some ''tok3'') st3 = (Inl InvalidRefreshToken, st3)
   \<and> later ''tok3'' st3 (snd (login cfg0 dp0 21 ''tok5'' ''alice'' ''pw'' ''dev1'' st3))
   \<and> fst (refreshTokens cfg0 dp0 22 22 ''tok6'' ''dev2'' (Some ''tok3'')
        (snd (login cfg0 dp0 21 ''tok5'' ''alice'' ''pw'' ''dev1'' st3))) = Inl InvalidRefreshToken"
proof -
  note e = refresh_bob_st2
  have n: "''tok4'' \<noteq> ''tok3''" by simp
  have f: "refreshSession_findOne \<lparr>by_fingerprint = Some ''dev2'', by_token = Some ''tok3''\<rparr> st2
       = Some sessC"
    by (simp add: refreshSession_findOne_def matches_def fixture_defs)
  have l: "later ''tok3'' st3 (snd (login cfg0 dp0 21 ''tok5'' ''alice'' ''pw'' ''dev1'' st3))"
    by (rule later_login [OF later_now]) simp
  have d: "issued cfg0 19 ''tok4'' (s_user sessC) (s_fingerprint sessC) st2 = sessD"
    "s_user sessD = s_user sessC" "s_fingerprint sessD = s_fingerprint sessC"
    by (simp_all add: issued_def fixture_defs)
  from refresh_rotation [OF reachable_st2 e n, of cfg0 dp0 20 20 "''tok5''" "''dev2''"
      "snd (login cfg0 dp0 21 ''tok5'' ''alice'' ''pw'' ''dev1'' st3)"] f d l
  have a: "sessC \<notin> set (sessions st3)" "sessD \<in> set (sessions st3)"
    "refreshTokens cfg0 dp0 20 20 ''tok5'' ''dev2'' (Some ''tok3'') st3 = (Inl InvalidRefreshToken, st3)"
    by auto
  from refresh_rotation [OF reachable_st2 e n, of cfg0 dp0 22 22 "''tok6''" "''dev2''"
      "snd (login cfg0 dp0 21 ''tok5'' ''alice'' ''pw'' ''dev1'' st3)"] l
  have b: "fst (refreshTokens cfg0 dp0 22 22 ''tok6'' ''dev2'' (Some ''tok3'')
        (snd (login cfg0 dp0 21 ''tok5'' ''alice'' ''pw'' ''dev1'' st3))) = Inl InvalidRefreshToken"
    by auto
  from reachable_st2 e n f a d(2,3) l b show ?thesis by blast
qed

section \<open>When a refresh is rejected\<close>

lemma findOne_unique:
  assumes "distinct (map s_token (sessions st))" and "s \<in> set (sessions st)"
  shows "refreshSession_findOne \<lparr>by_fingerprint = Some (s_fingerprint s), by_token = Some (s_token s)\<rparr> st
           = Some s"
proof (cases "refreshSession_findOne
    \<lparr>by_fingerprint = Some (s_fingerprint s), by_token = Some (s_token s)\<rparr> st")
  case None
  then have "\<not> matches \<lparr>by_fingerprint = Some (s_fingerprint s), by_token = Some (s_token s)\<rparr> s"
    using assms(2) by (auto simp: refreshSession_findOne_def find_None_iff)
  then show ?thesis by (simp add: matches_def)
next
  case (Some x)
  from findOne_Some [OF Some] have "x \<in> set (sessions st)" "s_token x = s_token s"
    by simp_all
  with assms have "x = s"
    using distinct_map_eq [of s_token "sessions st" x s] by simp
  with Some show ?thesis by simp
qed

lemma findOne_None:
  "refreshSession_findOne \<lparr>by_fingerprint = Some fingerprint, by_token = Some token\<rparr> st = None
     \<longleftrightarrow> \<not> (\<exists>s\<in>set (sessions st). s_token s = token \<and> s_fingerprint s = fingerprint)"
  by (auto simp: refreshSession_findOne_def find_None_iff matches_def)

lemma refreshTokens_Some:
  assumes "token \<noteq> []"
    and "refreshSession_findOne \<lparr>by_fingerprint = Some fingerprint, by_token = Some token\<rparr> st
           = Some session"
  shows "refreshTokens cfg dp now0 now uuid fingerprint (Some token) st =
     (if isExpired now0 session then (Inl InvalidRefreshToken, st)
      else if uuid \<in> set (map s_token (sessions (refreshSession_remove session st)))
      then (Inl DuplicateToken, refreshSession_remove session st)
      else (Inr \<lparr>res_status = 204,
                 res_cookies = token_cookies cfg (jwt_signAsync dp (u_id (s_user session))) uuid,
                 res_body = None\<rparr>,
            snd (getJWTs cfg dp now uuid (s_user session) fingerprint
                  (refreshSession_remove session st))))"
  using assms by (simp add: refreshTokens_def Let_def getJWTs_cases)

text \<open>
  Claim C3. In a reachable state whose tokens are not empty (the generator returns
  UUIDs), a refresh fails with \<^verbatim>\<open>BadRequestException("Invalid refresh token")\<close> exactly
  when no stored session has both the presented token and the fingerprint, or the
  session found has reached its \<open>expiresAt\<close>. So the token of a session presented with
  another fingerprint is rejected, a refresh at or after \<open>expiresAt\<close> is rejected, and
  a refresh before \<open>expiresAt\<close> (one time unit before, for one) succeeds when the newly
  generated token is not the token of a stored session.
\<close>

theorem refresh_fails_iff:
  assumes "reachable st" and "[] \<notin> set (map s_token (sessions st))"
  shows "(fst (refreshTokens cfg dp now0 now uuid fingerprint cookie' st) = Inl InvalidRefreshToken
      \<longleftrightarrow> (\<not> (\<exists>s\<in>set (sessions st). cookie' = Some (s_token s) \<and> s_fingerprint s = fingerprint)
           \<or> (\<exists>token session. cookie' = Some token
                \<and> refreshSession_findOne \<lparr>by_fingerprint = Some fingerprint, by_token = Some token\<rparr> st
                    = Some session
                \<and> s_expiresAt session \<le> now0)))
   \<and> (\<forall>s\<in>set (sessions st). fingerprint \<noteq> s_fingerprint s \<longrightarrow>
         refreshTokens cfg dp now0 now uuid fingerprint (Some (s_token s)) st
           = (Inl InvalidRefreshToken, st))
   \<and> (\<forall>s\<in>set (sessions st). s_expiresAt s \<le> now0 \<longrightarrow>
         refreshTokens cfg dp now0 now uuid (s_fingerprint s) (Some (s_token s)) st
           = (Inl InvalidRefreshToken, st))
   \<and> (\<forall>s\<in>set (sessions st). now0 < s_expiresAt s \<and> uuid \<notin> set (map s_token (sessions st)) \<longrightarrow>
         (\<exists>r st'. refreshTokens cfg dp now0 now uuid (s_fingerprint s) (Some (s_token s)) st
           = (Inr r, st')))"
proof -
  have d: "distinct (map s_token (sessions st))"
    using reachable_store_inv [OF assms(1)] by (simp add: store_inv_def)
  have ne: "\<And>s. s \<in> set (sessions st) \<Longrightarrow> s_token s \<noteq> []"
    using assms(2) by force
  have 1: "fst (refreshTokens cfg dp now0 now uuid fingerprint cookie' st) = Inl InvalidRefreshToken
      \<longleftrightarrow> (\<not> (\<exists>s\<in>set (sessions st). cookie' = Some (s_token s) \<and> s_fingerprint s = fingerprint)
           \<or> (\<exists>token session. cookie' = Some token
                \<and> refreshSession_findOne \<lparr>by_fingerprint = Some fingerprint, by_token = Some token\<rparr> st
                    = Some session
                \<and> s_expiresAt session \<le> now0))"
  proof (cases cookie')
    case None
    then show ?thesis by (simp add: refreshTokens_def)
  next
    case (Some token)
    show ?thesis
    proof (cases "refreshSession_findOne
        \<lparr>by_fingerprint = Some fingerprint, by_token = Some token\<rparr> st")
      case None
      then have no: "\<not> (\<exists>s\<in>set (sessions st). s_token s = token \<and> s_fingerprint s = fingerprint)"
        by (simp add: findOne_None)
      have "fst (refreshTokens cfg dp now0 now uuid fingerprint (Some token) st) = Inl InvalidRefreshToken"
        using None by (simp add: refreshTokens_def Let_def)
      with no Some show ?thesis by auto
    next
      case (Some session)
      from findOne_Some [OF Some] have m: "session \<in> set (sessions st)"
        "s_fingerprint session = fingerprint" "s_token session = token"
        by simp_all
      then have t: "token \<noteq> []" using ne by auto
      have "fst (refreshTokens cfg dp now0 now uuid fingerprint (Some token) st) = Inl InvalidRefreshToken
          \<longleftrightarrow> s_expiresAt session \<le> now0"
        by (simp add: refreshTokens_Some [OF t Some] isExpired_def)
      with m Some \<open>cookie' = Some token\<close> show ?thesis by auto
    qed
  qed
  have 2: "\<forall>s\<in>set (sessions st). fingerprint \<noteq> s_fingerprint s \<longrightarrow>
         refreshTokens cfg dp now0 now uuid fingerprint (Some (s_token s)) st
           = (Inl InvalidRefreshToken, st)"
  proof (intro ballI impI)
    fix s assume s: "s \<in> set (sessions st)" and f: "fingerprint \<noteq> s_fingerprint s"
    have "\<not> (\<exists>x\<in>set (sessions st). s_token x = s_token s \<and> s_fingerprint x = fingerprint)"
    proof
      assume "\<exists>x\<in>set (sessions st). s_token x = s_token s \<and> s_fingerprint x = fingerprint"
      then obtain x where x: "x \<in> set (sessions st)" "s_token x = s_token s"
        "s_fingerprint x = fingerprint"
        by blast
      with d s have "x = s"
        using distinct_map_eq [of s_token "sessions st" x s] by simp
      with x(3) f show False by simp
    qed
    then have "refreshSession_findOne
        \<lparr>by_fingerprint = Some fingerprint, by_token = Some (s_token s)\<rparr> st = None"
      by (simp add: findOne_None)
    then show "refreshTokens cfg dp now0 now uuid fingerprint (Some (s_token s)) st
           = (Inl InvalidRefreshToken, st)"
      by (simp add: refreshTokens_def Let_def)
  qed
  have 3: "\<forall>s\<in>set (sessions st). s_expiresAt s \<le> now0 \<longrightarrow>
         refreshTokens cfg dp now0 now uuid (s_fingerprint s) (Some (s_token s)) st
           = (Inl InvalidRefreshToken, st)"
  proof (intro ballI impI)
    fix s assume s: "s \<in> set (sessions st)" and e: "s_expiresAt s \<le> now0"
    from refreshTokens_Some [OF ne [OF s] findOne_unique [OF d s]] e
    show "refreshTokens cfg dp now0 now uuid (s_fingerprint s) (Some (s_token s)) st
           = (Inl InvalidRefreshToken, st)"
      by (simp add: isExpired_def)
  qed
  have 4: "\<forall>s\<in>set (sessions st). now0 < s_expiresAt s \<and> uuid \<notin> set (map s_token (sessions st)) \<longrightarrow>
         (\<exists>r st'. refreshTokens cfg dp now0 now uuid (s_fingerprint s) (Some (s_token s)) st
           = (Inr r, st'))"
  proof (intro ballI impI)
    fix s assume s: "s \<in> set (sessions st)"
      and e: "now0 < s_expiresAt s \<and> uuid \<notin> set (map s_token (sessions st))"
    then have "uuid \<notin> set (map s_token (sessions (refreshSession_remove s st)))"
      by (auto simp: remove_sessions)
    with refreshTokens_Some [OF ne [OF s] findOne_unique [OF d s]] e
    show "\<exists>r st'. refreshTokens cfg dp now0 now uuid (s_fingerprint s) (Some (s_token s)) st
           = (Inr r, st')"
      by (simp add: isExpired_def)
  qed
  from 1 2 3 4 show ?thesis by blast
qed


theorem refresh_fails_iff_witness:
  "reachable st2
   \<and> [] \<notin> set (map s_token (sessions st2))
   \<and> sessA \<in> set (sessions st2)
   \<and> s_expiresAt sessA = 10 \<and> s_fingerprint sessA = ''dev1'' \<and> s_token sessA = ''tok1''
   \<and> fst (refreshTokens cfg0 dp0 10 10 ''tok4'' ''dev1'' (Some ''tok1'') st2) = Inl InvalidRefreshToken
   \<and> refreshTokens cfg0 dp0 11 11 ''tok4'' ''dev1'' (Some ''tok1'') st2 = (Inl InvalidRefreshToken, st2)
   \<and> refreshTokens cfg0 dp0 5 5 ''tok4'' ''dev2'' (Some ''tok1'') st2 = (Inl InvalidRefreshToken, st2)
   \<and> fst (refreshTokens cfg0 dp0 5 5 ''tok4'' ''dev1'' None st2) = Inl InvalidRefreshToken
   \<and> fst (refreshTokens cfg0 dp0 9 9 ''tok4'' ''dev1'' (Some ''tok1'') st2) \<noteq> Inl InvalidRefreshToken
   \<and> ''tok4'' \<notin> set (map s_token (sessions st2))
   \<and> (\<exists>r st'. refreshTokens cfg0 dp0 9 9 ''tok4'' ''dev1'' (Some ''tok1'') st2 = (Inr r, st'))"
proof -
  note r = reachable_st2
  have n: "[] \<notin> set (map s_token (sessions st2))"
    by (simp add: fixture_defs)
  note inst = refresh_fails_iff [OF r n, where cfg = cfg0 and dp = dp0 and uuid = "''tok4''"]
  have m: "sessA \<in> set (sessions st2)"
    by (simp add: fixture_defs)
  have v: "s_expiresAt sessA = 10" "s_fingerprint sessA = ''dev1''" "s_token sessA = ''tok1''"
    by (simp_all add: fixture_defs)
  have f: "refreshSession_findOne \<lparr>by_fingerprint = Some ''dev1'', by_token = Some ''tok1''\<rparr> st2
       = Some sessA"
    by (simp add: refreshSession_findOne_def matches_def fixture_defs)
  have u: "''tok4'' \<notin> set (map s_token (sessions st2))"
    by (simp add: fixture_defs)
  have a: "fst (refreshTokens cfg0 dp0 10 10 ''tok4'' ''dev1'' (Some ''tok1'') st2) = Inl InvalidRefreshToken"
    unfolding inst [where now0 = 10 and now = 10 and fingerprint = "''dev1''"
        and cookie' = "Some ''tok1''", THEN conjunct1]
    using f v by simp
  have b: "refreshTokens cfg0 dp0 11 11 ''tok4'' ''dev1'' (Some ''tok1'') st2 = (Inl InvalidRefreshToken, st2)"
    using inst [where now0 = 11 and now = 11, THEN conjunct2, THEN conjunct2, THEN conjunct1,
        rule_format, OF m] v
    by simp
  have c: "refreshTokens cfg0 dp0 5 5 ''tok4'' ''dev2'' (Some ''tok1'') st2 = (Inl InvalidRefreshToken, st2)"
    using inst [where now0 = 5 and now = 5 and fingerprint = "''dev2''", THEN conjunct2,
        THEN conjunct1, rule_format, OF m] v
    by simp
  have d: "fst (refreshTokens cfg0 dp0 5 5 ''tok4'' ''dev1'' None st2) = Inl InvalidRefreshToken"
    unfolding inst [where now0 = 5 and now = 5 and fingerprint = "''dev1''" and cookie' = None,
        THEN conjunct1]
    by simp
  have e: "fst (refreshTokens cfg0 dp0 9 9 ''tok4'' ''dev1'' (Some ''tok1'') st2) \<noteq> Inl InvalidRefreshToken"
    unfolding inst [where now0 = 9 and now = 9 and fingerprint = "''dev1''"
        and cookie' = "Some ''tok1''", THEN conjunct1]
    using f v m by (auto intro!: bexI [of _ sessA])
  have g: "\<exists>r st'. refreshTokens cfg0 dp0 9 9 ''tok4'' ''dev1'' (Some ''tok1'') st2 = (Inr r, st')"
    using inst [where now0 = 9 and now = 9, THEN conjunct2, THEN conjunct2, THEN conjunct2,
        rule_format, OF m] v u
    by simp
  from r n m v a b c d e u g show ?thesis by blast
qed

section \<open>Two refreshes with the same token\<close>

lemmas request_defs = reqA_def reqB_def sessE_def st4_def

text \<open>The three steps of one request, run with nothing in between, are the handler.\<close>

lemma refresh_steps_alone:
  "interleave [Caller1, Caller1, Caller1] rqa rqb (AtLookup, pb, st) =
     (Finished (fst (refreshTokens (rq_cfg rqa) (rq_dp rqa) (rq_now0 rqa) (rq_now rqa) (rq_uuid rqa)
                       (rq_fingerprint rqa) (rq_cookie rqa) st)),
      pb,
      snd (refreshTokens (rq_cfg rqa) (rq_dp rqa) (rq_now0 rqa) (rq_now rqa) (rq_uuid rqa)
             (rq_fingerprint rqa) (rq_cookie rqa) st))"
  by (simp add: refreshTokens_def Let_def split: option.splits prod.splits sum.splits)

lemma both_lookups:
  "refresh_step reqA AtLookup st2 = (AtRemove sessC, st2)"
  "refresh_step reqB AtLookup st2 = (AtRemove sessC, st2)"
  by (simp_all add: refreshSession_findOne_def matches_def isExpired_def fixture_defs request_defs)

lemma first_removes:
  "refresh_step reqA (AtRemove sessC) st2 = (AtIssue sessC, st2\<lparr>sessions := [sessA, sessB]\<rparr>)"
  by (simp add: refreshSession_remove_def fixture_defs)

lemma first_issues:
  "refresh_step reqA (AtIssue sessC) (st2\<lparr>sessions := [sessA, sessB]\<rparr>) =
     (Finished (Inr \<lparr>res_status = 204, res_cookies = token_cookies cfg0 ''jwt'' ''tok4'',
                      res_body = None\<rparr>), st3)"
  by (simp add: getJWTs_cases issued_def fixture_defs request_defs)

lemma second_removes:
  "refresh_step reqB (AtRemove sessC) st3 = (AtIssue sessC, st3)"
  by (simp add: refreshSession_remove_def fixture_defs)

lemma second_issues:
  "refresh_step reqB (AtIssue sessC) st3 =
     (Finished (Inr \<lparr>res_status = 204, res_cookies = token_cookies cfg0 ''jwt'' ''tok5'',
                      res_body = None\<rparr>), st4)"
  by (simp add: getJWTs_cases issued_def fixture_defs request_defs)

text \<open>
  Claim C10, as the spec states it: of two concurrent refreshes presenting the same
  valid token exactly one succeeds and the other gets
  \<^verbatim>\<open>BadRequestException("Invalid refresh token")\<close>. When both look the session up
  before either removes it, both succeed: each gets a new pair of tokens, and the store
  ends with two sessions of Bob on \<open>dev2\<close>.
\<close>

theorem concurrent_refreshes_both_succeed_counterexample:
  "refreshSession_findOne \<lparr>by_fingerprint = Some ''dev2'', by_token = Some ''tok3''\<rparr> st2 = Some sessC
   \<and> \<not> isExpired 19 sessC
   \<and> interleave [Caller1, Caller2, Caller1, Caller1, Caller2, Caller2] reqA reqB
        (AtLookup, AtLookup, st2)
      = (Finished (Inr \<lparr>res_status = 204, res_cookies = token_cookies cfg0 ''jwt'' ''tok4'',
                         res_body = None\<rparr>),
         Finished (Inr \<lparr>res_status = 204, res_cookies = token_cookies cfg0 ''jwt'' ''tok5'',
                         res_body = None\<rparr>),
         st4)"
proof -
  have "refreshSession_findOne \<lparr>by_fingerprint = Some ''dev2'', by_token = Some ''tok3''\<rparr> st2
      = Some sessC"
    by (simp add: refreshSession_findOne_def matches_def fixture_defs)
  moreover have "\<not> isExpired 19 sessC"
    by (simp add: isExpired_def fixture_defs)
  moreover have "interleave [Caller1, Caller2, Caller1, Caller1, Caller2, Caller2] reqA reqB
        (AtLookup, AtLookup, st2)
      = (Finished (Inr \<lparr>res_status = 204, res_cookies = token_cookies cfg0 ''jwt'' ''tok4'',
                         res_body = None\<rparr>),
         Finished (Inr \<lparr>res_status = 204, res_cookies = token_cookies cfg0 ''jwt'' ''tok5'',
                         res_body = None\<rparr>),
         st4)"
    by (simp only: interleave.simps both_lookups first_removes first_issues second_removes
        second_issues prod.case)
  ultimately show ?thesis by simp
qed


lemma interleave_finished:
  "interleave cs rqa rqb (Finished ra, Finished rb, st) = (Finished ra, Finished rb, st)"
proof (induction cs)
  case Nil
  then show ?case by simp
next
  case (Cons c cs)
  then show ?case by (cases c) simp_all
qed

lemma interleave_first_left:
  assumes "refresh_step rqa pa st = (Finished ra, st')" and "Caller1 \<in> set cs"
  shows "interleave cs rqa rqb (pa, Finished rb, st) = (Finished ra, Finished rb, st')"
  using assms(2)
proof (induction cs)
  case Nil
  then show ?case by simp
next
  case (Cons c cs)
  show ?case
  proof (cases c)
    case Caller1
    then show ?thesis by (simp add: assms(1) interleave_finished)
  next
    case Caller2
    with Cons show ?thesis by simp
  qed
qed

lemma interleave_second_left:
  assumes "refresh_step rqb pb st = (Finished rb, st')" and "Caller2 \<in> set cs"
  shows "interleave cs rqa rqb (Finished ra, pb, st) = (Finished ra, Finished rb, st')"
  using assms(2)
proof (induction cs)
  case Nil
  then show ?case by simp
next
  case (Cons c cs)
  show ?case
  proof (cases c)
    case Caller2
    then show ?thesis by (simp add: assms(1) interleave_finished)
  next
    case Caller1
    with Cons show ?thesis by simp
  qed
qed

lemma interleave_first_writes:
  assumes "refresh_step rqa pa st = (Finished ra, st')"
    and "refresh_step rqb pb st = (Finished rb, st)"
    and "refresh_step rqb pb st' = (Finished rb, st')"
    and "Caller1 \<in> set cs" and "Caller2 \<in> set cs"
  shows "interleave cs rqa rqb (pa, pb, st) = (Finished ra, Finished rb, st')"
proof (cases cs)
  case Nil
  with assms(4) show ?thesis by simp
next
  case (Cons c cs')
  show ?thesis
  proof (cases c)
    case Caller1
    with Cons assms(5) have "Caller2 \<in> set cs'" by simp
    from interleave_second_left [OF assms(3) this] Cons Caller1 show ?thesis
      by (simp add: assms(1))
  next
    case Caller2
    with Cons assms(4) have "Caller1 \<in> set cs'" by simp
    from interleave_first_left [OF assms(1) this] Cons Caller2 show ?thesis
      by (simp add: assms(2))
  qed
qed

lemma interleave_second_writes:
  assumes "refresh_step rqb pb st = (Finished rb, st')"
    and "refresh_step rqa pa st = (Finished ra, st)"
    and "refresh_step rqa pa st' = (Finished ra, st')"
    and "Caller1 \<in> set cs" and "Caller2 \<in> set cs"
  shows "interleave cs rqa rqb (pa, pb, st) = (Finished ra, Finished rb, st')"
proof (cases cs)
  case Nil
  with assms(4) show ?thesis by simp
next
  case (Cons c cs')
  show ?thesis
  proof (cases c)
    case Caller2
    with Cons assms(4) have "Caller1 \<in> set cs'" by simp
    from interleave_first_left [OF assms(3) this] Cons Caller2 show ?thesis
      by (simp add: assms(1))
  next
    case Caller1
    with Cons assms(5) have "Caller2 \<in> set cs'" by simp
    from interleave_second_left [OF assms(1) this] Cons Caller1 show ?thesis
      by (simp add: assms(2))
  qed
qed

lemma lookup_absent_token:
  assumes "rq_cookie rq = Some token" and "token \<notin> set (map s_token (sessions st))"
  shows "refresh_step rq AtLookup st = (Finished (Inl InvalidRefreshToken), st)"
proof -
  have "find (matches \<lparr>by_fingerprint = Some (rq_fingerprint rq), by_token = Some token\<rparr>)
          (sessions st) = None"
    using assms(2) by (auto simp: find_None_iff matches_def)
  then show ?thesis
    by (simp add: assms(1) refreshSession_findOne_def Let_def)
qed

lemma token_gone_after_remove:
  assumes "distinct (map s_token (sessions st))" and "session \<in> set (sessions st)"
  shows "s_token session \<notin> set (map s_token (sessions (refreshSession_remove session st)))"
proof
  assume "s_token session \<in> set (map s_token (sessions (refreshSession_remove session st)))"
  then obtain x where x: "x \<in> set (sessions st)" "s_id x \<noteq> s_id session"
    "s_token x = s_token session"
    by (auto simp: remove_sessions)
  with assms have "x = session"
    using distinct_map_eq [of s_token "sessions st" x session] by simp
  with x(2) show False by simp
qed

text \<open>One request looks up and removes; the other looks up only afterwards.\<close>

lemma removal_before_lookup:
  assumes r: "reachable st"
    and f: "refreshSession_findOne \<lparr>by_fingerprint = Some fingerprint, by_token = Some token\<rparr> st
              = Some session"
    and t: "token \<noteq> []"
    and ca: "rq_cookie rqa = Some token" and fa: "rq_fingerprint rqa = fingerprint"
    and cb: "rq_cookie rqb = Some token"
    and ea: "\<not> isExpired (rq_now0 rqa) session"
    and ua: "rq_uuid rqa \<notin> set (map s_token (sessions st))"
  shows "refresh_step rqa AtLookup st = (AtRemove session, st)"
    and "refresh_step rqa (AtIssue session) (refreshSession_remove session st) =
      (Finished (Inr \<lparr>res_status = 204,
         res_cookies = token_cookies (rq_cfg rqa)
           (jwt_signAsync (rq_dp rqa) (u_id (s_user session))) (rq_uuid rqa),
         res_body = None\<rparr>),
       snd (getJWTs (rq_cfg rqa) (rq_dp rqa) (rq_now rqa) (rq_uuid rqa) (s_user session)
              fingerprint (refreshSession_remove session st)))"
    and "refresh_step rqb AtLookup (refreshSession_remove session st) =
      (Finished (Inl InvalidRefreshToken), refreshSession_remove session st)"
    and "refresh_step rqb AtLookup
        (snd (getJWTs (rq_cfg rqa) (rq_dp rqa) (rq_now rqa) (rq_uuid rqa) (s_user session)
              fingerprint (refreshSession_remove session st))) =
      (Finished (Inl InvalidRefreshToken),
       snd (getJWTs (rq_cfg rqa) (rq_dp rqa) (rq_now rqa) (rq_uuid rqa) (s_user session)
              fingerprint (refreshSession_remove session st)))"
proof -
  let ?s2 = "refreshSession_remove session st"
  let ?s3 = "snd (getJWTs (rq_cfg rqa) (rq_dp rqa) (rq_now rqa) (rq_uuid rqa) (s_user session)
              fingerprint ?s2)"
  from findOne_Some [OF f] have mem: "session \<in> set (sessions st)"
    and tk: "s_token session = token"
    by simp_all
  have d: "distinct (map s_token (sessions st))"
    using reachable_store_inv [OF r] by (simp add: store_inv_def)
  show "refresh_step rqa AtLookup st = (AtRemove session, st)"
    using f t ea by (simp add: ca fa Let_def)
  have ua2: "rq_uuid rqa \<notin> set (map s_token (sessions ?s2))"
    using ua by (auto simp: remove_sessions)
  then show "refresh_step rqa (AtIssue session) ?s2 =
      (Finished (Inr \<lparr>res_status = 204,
         res_cookies = token_cookies (rq_cfg rqa)
           (jwt_signAsync (rq_dp rqa) (u_id (s_user session))) (rq_uuid rqa),
         res_body = None\<rparr>), ?s3)"
    by (simp add: getJWTs_cases fa)
  have gone: "token \<notin> set (map s_token (sessions ?s2))"
    using token_gone_after_remove [OF d mem] tk by simp
  from lookup_absent_token [OF cb gone]
  show "refresh_step rqb AtLookup ?s2 = (Finished (Inl InvalidRefreshToken), ?s2)" .
  have "rq_uuid rqa \<noteq> token"
    using ua mem tk by auto
  with gone tokens_getJWTs [of "rq_cfg rqa" "rq_dp rqa" "rq_now rqa" "rq_uuid rqa" "s_user session"
      fingerprint ?s2]
  have "token \<notin> set (map s_token (sessions ?s3))"
    by auto
  from lookup_absent_token [OF cb this]
  show "refresh_step rqb AtLookup ?s3 = (Finished (Inl InvalidRefreshToken), ?s3)" .
qed

text \<open>
  Claim C10, amended. Of two refreshes presenting the same valid token in a reachable
  state, when one looks the session up only after the other has removed it (so also
  when they run one after the other), whatever the order of the remaining steps,
  exactly one succeeds, the one that removed, and the other gets
  \<^verbatim>\<open>BadRequestException("Invalid refresh token")\<close>, the session being gone. The generated
  tokens are taken not to be stored already.
\<close>

theorem ordered_refreshes_one_succeeds:
  assumes "reachable st"
    and "refreshSession_findOne \<lparr>by_fingerprint = Some fingerprint, by_token = Some token\<rparr> st
              = Some session"
    and "token \<noteq> []"
    and "rq_cookie rqa = Some token" and "rq_fingerprint rqa = fingerprint"
    and "rq_cookie rqb = Some token" and "rq_fingerprint rqb = fingerprint"
    and "\<not> isExpired (rq_now0 rqa) session" and "\<not> isExpired (rq_now0 rqb) session"
    and "rq_uuid rqa \<notin> set (map s_token (sessions st))"
    and "rq_uuid rqb \<notin> set (map s_token (sessions st))"
    and "Caller1 \<in> set cs" and "Caller2 \<in> set cs"
  shows "interleave (Caller1 # Caller1 # cs) rqa rqb (AtLookup, AtLookup, st) =
      (Finished (Inr \<lparr>res_status = 204,
         res_cookies = token_cookies (rq_cfg rqa)
           (jwt_signAsync (rq_dp rqa) (u_id (s_user session))) (rq_uuid rqa),
         res_body = None\<rparr>),
       Finished (Inl InvalidRefreshToken),
       snd (getJWTs (rq_cfg rqa) (rq_dp rqa) (rq_now rqa) (rq_uuid rqa) (s_user session)
              fingerprint (refreshSession_remove session st)))
    \<and> interleave (Caller2 # Caller2 # cs) rqa rqb (AtLookup, AtLookup, st) =
      (Finished (Inl InvalidRefreshToken),
       Finished (Inr \<lparr>res_status = 204,
         res_cookies = token_cookies (rq_cfg rqb)
           (jwt_signAsync (rq_dp rqb) (u_id (s_user session))) (rq_uuid rqb),
         res_body = None\<rparr>),
       snd (getJWTs (rq_cfg rqb) (rq_dp rqb) (rq_now rqb) (rq_uuid rqb) (s_user session)
              fingerprint (refreshSession_remove session st)))"
proof -
  note a = removal_before_lookup [OF assms(1,2,3) assms(4,5) assms(6) assms(8) assms(10)]
  note b = removal_before_lookup [OF assms(1,2,3) assms(6,7) assms(4) assms(9) assms(11)]
  have 1: "interleave (Caller1 # Caller1 # cs) rqa rqb (AtLookup, AtLookup, st) =
      interleave cs rqa rqb (AtIssue session, AtLookup, refreshSession_remove session st)"
    by (simp only: interleave.simps a(1) prod.case refresh_step.simps(2))
  have 2: "interleave (Caller2 # Caller2 # cs) rqa rqb (AtLookup, AtLookup, st) =
      interleave cs rqa rqb (AtLookup, AtIssue session, refreshSession_remove session st)"
    by (simp only: interleave.simps b(1) prod.case refresh_step.simps(2))
  show ?thesis
    unfolding 1 2
    using interleave_first_writes [OF a(2) a(3) a(4) assms(12) assms(13)]
      interleave_second_writes [OF b(2) b(3) b(4) assms(12) assms(13)]
    by simp
qed

theorem ordered_refreshes_one_succeeds_witness:
  "reachable st2
   \<and> refreshSession_findOne \<lparr>by_fingerprint = Some ''dev2'', by_token = Some ''tok3''\<rparr> st2
       = Some sessC
   \<and> ''tok3'' \<noteq> []
   \<and> rq_cookie reqA = Some ''tok3'' \<and> rq_fingerprint reqA = ''dev2''
   \<and> rq_cookie reqB = Some ''tok3'' \<and> rq_fingerprint reqB = ''dev2''
   \<and> \<not> isExpired (rq_now0 reqA) sessC \<and> \<not> isExpired (rq_now0 reqB) sessC
   \<and> rq_uuid reqA \<notin> set (map s_token (sessions st2))
   \<and> rq_uuid reqB \<notin> set (map s_token (sessions st2))
   \<and> fst (interleave [Caller1, Caller1, Caller1, Caller2, Caller2, Caller2] reqA reqB
        (AtLookup, AtLookup, st2))
       = Finished (Inr \<lparr>res_status = 204, res_cookies = token_cookies cfg0 ''jwt'' ''tok4'',
                         res_body = None\<rparr>)
   \<and> fst (snd (interleave [Caller1, Caller1, Caller1, Caller2, Caller2, Caller2] reqA reqB
        (AtLookup, AtLookup, st2)))
       = Finished (Inl InvalidRefreshToken)
   \<and> fst (interleave [Caller2, Caller2, Caller1, Caller2, Caller1, Caller1] reqA reqB
        (AtLookup, AtLookup, st2))
       = Finished (Inl InvalidRefreshToken)
   \<and> fst (snd (interleave [Caller2, Caller2, Caller1, Caller2, Caller1, Caller1] reqA reqB
        (AtLookup, AtLookup, st2)))
       = Finished (Inr \<lparr>res_status = 204, res_cookies = token_cookies cfg0 ''jwt'' ''tok5'',
                         res_body = None\<rparr>)"
proof -
  have f: "refreshSession_findOne \<lparr>by_fingerprint = Some ''dev2'', by_token = Some ''tok3''\<rparr> st2
       = Some sessC"
    by (simp add: refreshSession_findOne_def matches_def fixture_defs)
  have t: "''tok3'' \<noteq> []" by simp
  have ca: "rq_cookie reqA = Some ''tok3''" and fa: "rq_fingerprint reqA = ''dev2''"
    and cb: "rq_cookie reqB = Some ''tok3''" and fb: "rq_fingerprint reqB = ''dev2''"
    by (simp_all add: request_defs)
  have ea: "\<not> isExpired (rq_now0 reqA) sessC" and eb: "\<not> isExpired (rq_now0 reqB) sessC"
    by (simp_all add: isExpired_def request_defs fixture_defs)
  have ua: "rq_uuid reqA \<notin> set (map s_token (sessions st2))"
    and ub: "rq_uuid reqB \<notin> set (map s_token (sessions st2))"
    by (simp_all add: request_defs fixture_defs)
  have v: "rq_cfg reqA = cfg0" "rq_cfg reqB = cfg0" "rq_uuid reqA = ''tok4''" "rq_uuid reqB = ''tok5''"
    "jwt_signAsync (rq_dp reqA) (u_id (s_user sessC)) = ''jwt''"
    "jwt_signAsync (rq_dp reqB) (u_id (s_user sessC)) = ''jwt''"
    by (simp_all add: request_defs fixture_defs)
  have m1: "Caller1 \<in> set [Caller1, Caller2, Caller2, Caller2]"
    and m2: "Caller2 \<in> set [Caller1, Caller2, Caller2, Caller2]"
    and m3: "Caller1 \<in> set [Caller1, Caller2, Caller1, Caller1]"
    and m4: "Caller2 \<in> set [Caller1, Caller2, Caller1, Caller1]"
    by simp_all
  note x = ordered_refreshes_one_succeeds [OF reachable_st2 f t ca fa cb fb ea eb ua ub m1 m2,
      THEN conjunct1]
  note y = ordered_refreshes_one_succeeds [OF reachable_st2 f t ca fa cb fb ea eb ua ub m3 m4,
      THEN conjunct2]
  show ?thesis
    using reachable_st2 f t ca fa cb fb ea eb ua ub
    by (simp only: x y fst_conv snd_conv v) simp
qed

end
